theory Spec2Isabelle
  imports Main "HOL-Library.List_Lexorder"
begin

section \<open>The table generator \<open>tools/ucd-tool/ucd-tool.py\<close>\<close>

text \<open>
  The script reads JSON snapshots of the Unicode Character Database, turns them into
  lists of (code point range, value) pairs, builds two-stage tables from them and writes
  Rust source text. Its functions are embedded here one by one. Python exceptions are
  values of \<open>error\<close>; a function that can raise returns \<open>error + 'a\<close> with \<open>Inl\<close>
  for the exception. A \<open>dict\<close> is an association list in insertion order, which is the
  order Python iterates it in. Printing to the terminal is left out: it has no effect on
  what is returned or written.
\<close>

subsection \<open>Exceptions\<close>

datatype error =
    KeyError
  | ValueError
  | AttributeError
  | OverflowError
  | InvalidMappingError
  | DomainOverflowError

subsection \<open>Python built-ins used by the script\<close>

text \<open>
  \<open>min(iterable, key=f)\<close> keeps the first element and replaces it only by an element
  whose key is strictly smaller, so among equal keys the earliest element wins. On an
  empty iterable it raises \<open>ValueError\<close>.
\<close>

fun min_loop :: "('a \<Rightarrow> int) \<Rightarrow> 'a \<Rightarrow> 'a list \<Rightarrow> 'a" where
  "min_loop key best [] = best"
| "min_loop key best (x # xs) =
     (if key x < key best then min_loop key x xs else min_loop key best xs)"

fun py_min_key :: "('a \<Rightarrow> int) \<Rightarrow> 'a list \<Rightarrow> error + 'a" where
  "py_min_key key [] = Inl ValueError"
| "py_min_key key (x # xs) = Inr (min_loop key x xs)"

subsection \<open>\<open>select_minimal_tst\<close>\<close>

text \<open>
  \<^verbatim>\<open>
  def select_minimal_tst(prop, data, repr_size, default_prop=None, missing=None):
      tables = {64: None, 128: None, 256: None, 512: None}
      for block_size in tables.keys():
          tst = TwoStageTable.make(prop, data, block_size, default_prop, missing)
          tables[block_size] = tst
      return min(tables.values(), key=lambda x: x.table_bytes(repr_size))
  \<close>
  The class \<open>TwoStageTable\<close> lives in \<open>ucd.collections\<close>; its constructor \<open>make\<close> and its
  method \<open>table_bytes\<close> are parameters of the model. \<open>make\<close> may raise, and the
  exception then leaves \<open>select_minimal_tst\<close> at once.
\<close>

definition candidate_block_sizes :: "nat list" where
  "candidate_block_sizes = [64, 128, 256, 512]"

fun make_tables ::
  "(nat \<Rightarrow> error + 'tst) \<Rightarrow> nat list \<Rightarrow> error + (nat \<times> 'tst) list" where
  "make_tables mk [] = Inr []"
| "make_tables mk (block_size # rest) =
     (case mk block_size of
        Inl e \<Rightarrow> Inl e
      | Inr tst \<Rightarrow>
          (case make_tables mk rest of
             Inl e \<Rightarrow> Inl e
           | Inr tables \<Rightarrow> Inr ((block_size, tst) # tables)))"

definition select_minimal_tst ::
  "(string \<Rightarrow> 'd \<Rightarrow> nat \<Rightarrow> string option \<Rightarrow> 'm option \<Rightarrow> error + 'tst) \<Rightarrow>
   ('tst \<Rightarrow> int \<Rightarrow> int) \<Rightarrow>
   string \<Rightarrow> 'd \<Rightarrow> int \<Rightarrow> string option \<Rightarrow> 'm option \<Rightarrow> error + 'tst" where
  "select_minimal_tst make table_bytes prop data repr_size default_prop missing =
     (case make_tables (\<lambda>block_size. make prop data block_size default_prop missing)
             candidate_block_sizes of
        Inl e \<Rightarrow> Inl e
      | Inr tables \<Rightarrow> py_min_key (\<lambda>x. table_bytes x repr_size) (map snd tables))"

subsection \<open>Code point ranges\<close>

text \<open>
  The script imports \<open>CodePointRange\<close> from \<open>ucd.collections\<close> and uses its fields
  \<open>start\<close> and \<open>end\<close>, the test \<open>cp in rng\<close>, the order of ranges (in \<open>sorted\<close>)
  and the static method \<open>parse\<close>. Code points are non-negative integers.
\<close>

datatype CodePointRange = CodePointRange (start: nat) (end': nat)

text \<open>
  Modelled from the spec: the membership test of \<open>CodePointRange\<close> (class of
  \<open>ucd.collections\<close>, not among the sources). A Code Point Range is the "inclusive
  interval [start, end] of code points".
\<close>

definition cp_in :: "nat \<Rightarrow> CodePointRange \<Rightarrow> bool" where
  "cp_in cp rng = (start rng \<le> cp \<and> cp \<le> end' rng)"

text \<open>
  Modelled from the spec: the order of \<open>CodePointRange\<close> (class of \<open>ucd.collections\<close>,
  not among the sources). Ranges of a Range Mapping are "sorted by start".
\<close>

definition CodePointRange_lt :: "CodePointRange \<Rightarrow> CodePointRange \<Rightarrow> bool" where
  "CodePointRange_lt a b = (start a < start b)"

text \<open>
  Modelled from the spec: \<open>CodePointRange.parse\<close> (class of \<open>ucd.collections\<close>, not among
  the sources). The text form is the one of the literals of \<open>derived_na_ranges\<close>:
  hexadecimal digits, and for a range of more than one code point \<open>..\<close> between the two
  bounds. The functions of the script take \<open>parse\<close> as a parameter; this definition
  serves where a run on concrete text is shown.
\<close>

definition hex_digit :: "char \<Rightarrow> nat option" where
  "hex_digit c = map_of
     [(CHR ''0'', 0), (CHR ''1'', 1), (CHR ''2'', 2), (CHR ''3'', 3), (CHR ''4'', 4),
      (CHR ''5'', 5), (CHR ''6'', 6), (CHR ''7'', 7), (CHR ''8'', 8), (CHR ''9'', 9),
      (CHR ''A'', 10), (CHR ''B'', 11), (CHR ''C'', 12), (CHR ''D'', 13), (CHR ''E'', 14),
      (CHR ''F'', 15), (CHR ''a'', 10), (CHR ''b'', 11), (CHR ''c'', 12), (CHR ''d'', 13),
      (CHR ''e'', 14), (CHR ''f'', 15)] c"

fun hex_acc :: "nat \<Rightarrow> string \<Rightarrow> error + nat" where
  "hex_acc n [] = Inr n"
| "hex_acc n (c # cs) =
     (case hex_digit c of None \<Rightarrow> Inl ValueError | Some d \<Rightarrow> hex_acc (16 * n + d) cs)"

definition hex_number :: "string \<Rightarrow> error + nat" where
  "hex_number s = (if s = [] then Inl ValueError else hex_acc 0 s)"

fun split_dots :: "string \<Rightarrow> string \<Rightarrow> (string \<times> string) option" where
  "split_dots left [] = None"
| "split_dots left [c] = None"
| "split_dots left (c # c' # cs) =
     (if c = CHR ''.'' \<and> c' = CHR ''.'' then Some (left, cs)
      else split_dots (left @ [c]) (c' # cs))"

definition CodePointRange_parse :: "string \<Rightarrow> error + CodePointRange" where
  "CodePointRange_parse txt =
     (case split_dots [] txt of
        None \<Rightarrow>
          (case hex_number txt of
             Inl e \<Rightarrow> Inl e
           | Inr n \<Rightarrow> Inr (CodePointRange n n))
      | Some (a, b) \<Rightarrow>
          (case hex_number a of
             Inl e \<Rightarrow> Inl e
           | Inr n \<Rightarrow>
               (case hex_number b of
                  Inl e \<Rightarrow> Inl e
                | Inr m \<Rightarrow> Inr (CodePointRange n m))))"

subsection \<open>More built-ins: \<open>sorted\<close>, dictionaries, text\<close>

text \<open>
  \<open>sorted(xs, key=f)\<close> is stable and compares keys with \<open><\<close> only. It is modelled as
  the stable insertion sort over the comparison \<open>lt\<close> of the key's type: an element goes
  in front of the first element whose key is not smaller than its own. On a comparison
  that orders the keys by a linear measure this is the one stable sorted arrangement.
\<close>

fun py_insort :: "('k \<Rightarrow> 'k \<Rightarrow> bool) \<Rightarrow> ('a \<Rightarrow> 'k) \<Rightarrow> 'a \<Rightarrow> 'a list \<Rightarrow> 'a list" where
  "py_insort lt key x [] = [x]"
| "py_insort lt key x (y # ys) =
     (if lt (key y) (key x) then y # py_insort lt key x ys else x # y # ys)"

definition py_sorted :: "('k \<Rightarrow> 'k \<Rightarrow> bool) \<Rightarrow> ('a \<Rightarrow> 'k) \<Rightarrow> 'a list \<Rightarrow> 'a list" where
  "py_sorted lt key xs = foldr (py_insort lt key) xs []"

text \<open>\<open>d[k]\<close> raises \<open>KeyError\<close> on a key that is absent.\<close>

definition dict_get :: "('k \<times> 'v) list \<Rightarrow> 'k \<Rightarrow> error + 'v" where
  "dict_get d k = (case map_of d k of None \<Rightarrow> Inl KeyError | Some v \<Rightarrow> Inr v)"

text \<open>
  \<open>d[k] = v\<close> replaces the value of a key that is present, at its place, and puts a new
  key last.
\<close>

fun dict_set :: "'k \<Rightarrow> 'v \<Rightarrow> ('k \<times> 'v) list \<Rightarrow> ('k \<times> 'v) list" where
  "dict_set k v [] = [(k, v)]"
| "dict_set k v ((k', v') # d) =
     (if k' = k then (k, v) # d else (k', v') # dict_set k v d)"

text \<open>\<open>'{:04X}'.format(n)\<close>: upper-case hexadecimal, filled with zeros to four digits.\<close>

definition upper_hex_digit :: "nat \<Rightarrow> char" where
  "upper_hex_digit n = ''0123456789ABCDEF'' ! n"

function to_hex :: "nat \<Rightarrow> string" where
  "to_hex n = (if n < 16 then [upper_hex_digit n]
               else to_hex (n div 16) @ [upper_hex_digit (n mod 16)])"
  by pat_completeness auto
termination
  by (relation "measure (\<lambda>n. n)") auto

declare to_hex.simps [simp del]

definition format_04X :: "nat \<Rightarrow> string" where
  "format_04X n = replicate (4 - length (to_hex n)) (CHR ''0'') @ to_hex n"

definition newline :: string where
  "newline = [CHR 0x0A]"

definition dquote :: string where
  "dquote = [CHR 0x22]"

definition squote :: string where
  "squote = [CHR 0x27]"

definition backslash :: string where
  "backslash = [CHR 0x5C]"

subsection \<open>Alias lookup\<close>

text \<open>
  \<^verbatim>\<open>
  def find_key_by_value(d: Dict, val: str) -> str:
      for k, v in d.items():
          if v == val:
              return k
  \<close>
  When no value equals \<open>val\<close> the loop ends and the function returns \<open>None\<close>.
\<close>

fun find_key_by_value :: "(string \<times> string) list \<Rightarrow> string \<Rightarrow> string option" where
  "find_key_by_value [] val = None"
| "find_key_by_value ((k, v) # d) val =
     (if v = val then Some k else find_key_by_value d val)"

text \<open>
  \<^verbatim>\<open>
  def data_value_as_abbr(data, prop):
      aliases = property_value_aliases[prop]
      new_data = []
      for pair in data:
          new_pair = (pair[0], find_key_by_value(aliases, pair[1]))
          new_data.append(new_pair)
      return new_data
  \<close>
  The global \<open>property_value_aliases\<close>, loaded from \<open>PropertyValueAliases.json\<close>, is the
  first parameter.
\<close>

fun data_value_as_abbr_loop ::
  "(string \<times> string) list \<Rightarrow> (CodePointRange \<times> string) list \<Rightarrow>
   (CodePointRange \<times> string option) list \<Rightarrow> (CodePointRange \<times> string option) list" where
  "data_value_as_abbr_loop aliases [] new_data = new_data"
| "data_value_as_abbr_loop aliases (pair # rest) new_data =
     data_value_as_abbr_loop aliases rest
       (new_data @ [(fst pair, find_key_by_value aliases (snd pair))])"

definition data_value_as_abbr ::
  "(string \<times> (string \<times> string) list) list \<Rightarrow> (CodePointRange \<times> string) list \<Rightarrow> string \<Rightarrow>
   error + (CodePointRange \<times> string option) list" where
  "data_value_as_abbr property_value_aliases data prop =
     (case dict_get property_value_aliases prop of
        Inl e \<Rightarrow> Inl e
      | Inr aliases \<Rightarrow> Inr (data_value_as_abbr_loop aliases data []))"

text \<open>
  The dictionary \<open>property_info\<close> of the script: every property has a \<open>repr_size\<close>, some
  have an \<open>alias_key\<close> (\<open>None\<close> stands for a key that is absent).
\<close>

datatype prop_info = prop_info (info_repr_size: int) (info_alias_key: "string option")

definition property_info :: "(string \<times> prop_info) list" where
  "property_info =
     [(''bc'', prop_info 1 (Some ''bc'')),
      (''gc'', prop_info 1 (Some ''gc'')),
      (''hst'', prop_info 1 (Some ''hst'')),
      (''gcb'', prop_info 1 (Some ''GCB'')),
      (''ccc'', prop_info 1 (Some ''ccc'')),
      (''dt'', prop_info 1 None),
      (''blk'', prop_info 2 None),
      (''sc'', prop_info 1 None),
      (''age'', prop_info 1 None),
      (''wb'', prop_info 1 None),
      (''insc'', prop_info 1 (Some ''InSC''))]"

text \<open>
  \<^verbatim>\<open>
  def patch_data(filename, prop) -> Missing:
      ...
      alias_key = property_info[prop]['alias_key']
      d = json.loads(json_str)
      missing = Missing()
      for k, v in d.items():
          alias = find_key_by_value(property_value_aliases[alias_key], v)
          cp_range = CodePointRange.parse(k)
          missing.append(cp_range, alias)
      return missing
  \<close>
  The parameter \<open>d\<close> is the dictionary read from the file.

  Modelled from the spec: the class \<open>Missing\<close> (of \<open>ucd.collections\<close>, not among the
  sources). A Patch Set is an "ordered sequence of (Code Point Range, Value) overrides":
  a list of pairs, empty when created, to which \<open>append\<close> adds a pair at the end.
\<close>

type_synonym Missing = "(CodePointRange \<times> string option) list"

fun patch_data_loop ::
  "(string \<times> (string \<times> string) list) list \<Rightarrow> (string \<Rightarrow> error + CodePointRange) \<Rightarrow>
   string \<Rightarrow> (string \<times> string) list \<Rightarrow> Missing \<Rightarrow> error + Missing" where
  "patch_data_loop property_value_aliases parse alias_key [] missing = Inr missing"
| "patch_data_loop property_value_aliases parse alias_key ((k, v) # rest) missing =
     (case dict_get property_value_aliases alias_key of
        Inl e \<Rightarrow> Inl e
      | Inr aliases \<Rightarrow>
          (case parse k of
             Inl e \<Rightarrow> Inl e
           | Inr cp_range \<Rightarrow>
               patch_data_loop property_value_aliases parse alias_key rest
                 (missing @ [(cp_range, find_key_by_value aliases v)])))"

definition patch_data ::
  "(string \<times> (string \<times> string) list) list \<Rightarrow> (string \<Rightarrow> error + CodePointRange) \<Rightarrow>
   (string \<times> string) list \<Rightarrow> string \<Rightarrow> error + Missing" where
  "patch_data property_value_aliases parse d prop =
     (case dict_get property_info prop of
        Inl e \<Rightarrow> Inl e
      | Inr info \<Rightarrow>
          (case info_alias_key info of
             None \<Rightarrow> Inl KeyError
           | Some key \<Rightarrow> patch_data_loop property_value_aliases parse key d []))"

subsection \<open>\<open>make_data\<close> and \<open>make_grouped_data\<close>\<close>

text \<open>
  \<^verbatim>\<open>
  def make_data(filename):
      ...
      d = json.loads(json_str)
      data = []
      for k, v in d.items():
          cp_range = CodePointRange.parse(k)
          data.append((cp_range, v))
      data = sorted(data, key=lambda x: x[0])
      return data
  \<close>
  The parameter \<open>d\<close> is the dictionary read from the file; \<open>parse\<close> stands for
  \<open>CodePointRange.parse\<close>, which may raise.
\<close>

fun make_data_loop ::
  "(string \<Rightarrow> error + CodePointRange) \<Rightarrow> (string \<times> 'v) list \<Rightarrow>
   (CodePointRange \<times> 'v) list \<Rightarrow> error + (CodePointRange \<times> 'v) list" where
  "make_data_loop parse [] data = Inr data"
| "make_data_loop parse ((k, v) # rest) data =
     (case parse k of
        Inl e \<Rightarrow> Inl e
      | Inr cp_range \<Rightarrow> make_data_loop parse rest (data @ [(cp_range, v)]))"

definition make_data ::
  "(string \<Rightarrow> error + CodePointRange) \<Rightarrow> (string \<times> 'v) list \<Rightarrow>
   error + (CodePointRange \<times> 'v) list" where
  "make_data parse d =
     (case make_data_loop parse d [] of
        Inl e \<Rightarrow> Inl e
      | Inr data \<Rightarrow> Inr (py_sorted CodePointRange_lt fst data))"

text \<open>
  \<^verbatim>\<open>
  def make_grouped_data(filename):
      ...
      d = json.loads(json_str)
      data_dict = {}
      for prop, ranges in d.items():
          data_dict[prop] = []
          for rng in ranges:
              rng = CodePointRange.parse(rng)
              data_dict[prop].append((rng, "true"))
          data_dict[prop] = sorted(data_dict[prop], key=lambda x: x[0])
      return data_dict
  \<close>
  The inner loop works on the list stored under \<open>prop\<close>; the model passes that list
  along and stores it back when the inner loop is done.
\<close>

fun grouped_ranges_loop ::
  "(string \<Rightarrow> error + CodePointRange) \<Rightarrow> string list \<Rightarrow>
   (CodePointRange \<times> string) list \<Rightarrow> error + (CodePointRange \<times> string) list" where
  "grouped_ranges_loop parse [] entries = Inr entries"
| "grouped_ranges_loop parse (rng # rest) entries =
     (case parse rng of
        Inl e \<Rightarrow> Inl e
      | Inr r \<Rightarrow> grouped_ranges_loop parse rest (entries @ [(r, ''true'')]))"

fun make_grouped_data_loop ::
  "(string \<Rightarrow> error + CodePointRange) \<Rightarrow> (string \<times> string list) list \<Rightarrow>
   (string \<times> (CodePointRange \<times> string) list) list \<Rightarrow>
   error + (string \<times> (CodePointRange \<times> string) list) list" where
  "make_grouped_data_loop parse [] data_dict = Inr data_dict"
| "make_grouped_data_loop parse ((p, ranges) # rest) data_dict =
     (case grouped_ranges_loop parse ranges [] of
        Inl e \<Rightarrow> Inl e
      | Inr entries \<Rightarrow>
          make_grouped_data_loop parse rest
            (dict_set p (py_sorted CodePointRange_lt fst entries) (dict_set p [] data_dict)))"

definition make_grouped_data ::
  "(string \<Rightarrow> error + CodePointRange) \<Rightarrow> (string \<times> string list) list \<Rightarrow>
   error + (string \<times> (CodePointRange \<times> string) list) list" where
  "make_grouped_data parse d = make_grouped_data_loop parse d []"

subsection \<open>\<open>na_table_rs\<close>\<close>

text \<open>
  The ranges whose names are derived from the code point (Unicode Table 4-8), as the
  script lists them; each entry is the value of \<open>CodePointRange.parse\<close> on the literal
  shown at its right.
\<close>

definition derived_na_ranges :: "CodePointRange list" where
  "derived_na_ranges =
     [CodePointRange 0xAC00 0xD7A3,    \<comment> \<open>AC00..D7A3\<close>
      CodePointRange 0x3400 0x4DBF,    \<comment> \<open>3400..4DBF\<close>
      CodePointRange 0x4E00 0x9FFF,    \<comment> \<open>4E00..9FFF\<close>
      CodePointRange 0x20000 0x2A6DF,  \<comment> \<open>20000..2A6DF\<close>
      CodePointRange 0x2A700 0x2B739,  \<comment> \<open>2A700..2B739\<close>
      CodePointRange 0x2B740 0x2B81D,  \<comment> \<open>2B740..2B81D\<close>
      CodePointRange 0x2B820 0x2CEA1,  \<comment> \<open>2B820..2CEA1\<close>
      CodePointRange 0x2CEB0 0x2EBE0,  \<comment> \<open>2CEB0..2EBE0\<close>
      CodePointRange 0x2EBF0 0x2EE5D,  \<comment> \<open>2EBF0..2EE5D\<close>
      CodePointRange 0x30000 0x3134A,  \<comment> \<open>30000..3134A\<close>
      CodePointRange 0x31350 0x323AF,  \<comment> \<open>31350..323AF\<close>
      CodePointRange 0x17000 0x187F7,  \<comment> \<open>17000..187F7\<close>
      CodePointRange 0x18D00 0x18D08,  \<comment> \<open>18D00..18D08\<close>
      CodePointRange 0x18B00 0x18CD5,  \<comment> \<open>18B00..18CD5\<close>
      CodePointRange 0x1B170 0x1B2FB,  \<comment> \<open>1B170..1B2FB\<close>
      CodePointRange 0xF900 0xFA6D,    \<comment> \<open>F900..FA6D\<close>
      CodePointRange 0xFA70 0xFAD9,    \<comment> \<open>FA70..FAD9\<close>
      CodePointRange 0x2F800 0x2FA1D]  \<comment> \<open>2F800..2FA1D\<close>"

text \<open>
  \<^verbatim>\<open>
  def na_table_rs() -> str:
      ...
      d = json.loads(json_str)
      txt = '#[allow(dead_code)]\n'
      txt += 'pub(super) const NA_MAP: &[(u32, &\'static str)] = &[\n'
      for k, name in d.items():
          cp = CodePointRange.parse(k).start
          # Ignore if in the derivation ranges.
          ignore = False
          for rng in derived_na_ranges:
              if cp in rng:
                  ignore = True
          # Add to the table.
          if ignore is False:
              txt += '    (0x{:04X}, "{}"),\n'.format(cp, name)
      txt += '];\n'
      return txt
  \<close>
\<close>

fun ignore_loop :: "nat \<Rightarrow> CodePointRange list \<Rightarrow> bool \<Rightarrow> bool" where
  "ignore_loop cp [] ignore = ignore"
| "ignore_loop cp (rng # rest) ignore =
     ignore_loop cp rest (if cp_in cp rng then True else ignore)"

definition na_line :: "nat \<Rightarrow> string \<Rightarrow> string" where
  "na_line cp name =
     ''    (0x'' @ format_04X cp @ '', '' @ dquote @ name @ dquote @ ''),'' @ newline"

fun na_table_loop ::
  "(string \<Rightarrow> error + CodePointRange) \<Rightarrow> (string \<times> string) list \<Rightarrow> string \<Rightarrow>
   error + string" where
  "na_table_loop parse [] txt = Inr txt"
| "na_table_loop parse ((k, name) # rest) txt =
     (case parse k of
        Inl e \<Rightarrow> Inl e
      | Inr r \<Rightarrow>
          (let cp = start r;
               ignore = ignore_loop cp derived_na_ranges False
           in na_table_loop parse rest
                (if ignore = False then txt @ na_line cp name else txt)))"

definition na_table_header :: string where
  "na_table_header =
     ''#[allow(dead_code)]'' @ newline @
     ''pub(super) const NA_MAP: &[(u32, &'' @ squote @ ''static str)] = &['' @ newline"

definition na_table_rs ::
  "(string \<Rightarrow> error + CodePointRange) \<Rightarrow> (string \<times> string) list \<Rightarrow> error + string" where
  "na_table_rs parse d =
     (case na_table_loop parse d na_table_header of
        Inl e \<Rightarrow> Inl e
      | Inr txt \<Rightarrow> Inr (txt @ ''];'' @ newline))"

subsection \<open>\<open>dm_map_rs\<close>\<close>

text \<open>
  Texts read from the JSON files are values of \<open>string\<close>. The text that the second
  loop of \<open>dm_map_rs\<close> builds with \<open>chr\<close> holds arbitrary code points and is a list of
  natural numbers; Python compares two such texts code point by code point, the way
  lists are compared here.

  \<open>s.split(' ')\<close> cuts at every single space and keeps empty pieces.
\<close>

fun split_on :: "char \<Rightarrow> string \<Rightarrow> string list" where
  "split_on sep [] = [[]]"
| "split_on sep (c # cs) =
     (if c = sep then [] # split_on sep cs
      else (case split_on sep cs of
              [] \<Rightarrow> [[c]]
            | w # ws \<Rightarrow> (c # w) # ws))"

definition startswith_lt :: "string \<Rightarrow> bool" where
  "startswith_lt s = (case s of [] \<Rightarrow> False | c # cs \<Rightarrow> c = CHR ''<'')"

text \<open>
  \<open>re.sub('<.+> ', '', s)\<close>. The pattern matches \<open><\<close>, then one or more characters
  other than a line feed, as many as possible, then \<open>>\<close> and a space. \<open>dot_star_close\<close>
  is the greedy match of \<open>.*> \<close> at the head of a text and gives the number of
  characters matched; \<open>re_sub_tag\<close> walks through the text, drops every match and goes
  on behind it.
\<close>

fun dot_star_close :: "string \<Rightarrow> nat option" where
  "dot_star_close [] = None"
| "dot_star_close (c # cs) =
     (case (if c = CHR 0x0A then None else dot_star_close cs) of
        Some n \<Rightarrow> Some (Suc n)
      | None \<Rightarrow> (if c = CHR ''>'' \<and> take 1 cs = '' '' then Some 2 else None))"

definition dot_plus_close :: "string \<Rightarrow> nat option" where
  "dot_plus_close s =
     (case s of
        [] \<Rightarrow> None
      | c # cs \<Rightarrow> (if c = CHR 0x0A then None else map_option Suc (dot_star_close cs)))"

function re_sub_tag :: "string \<Rightarrow> string" where
  "re_sub_tag [] = []"
| "re_sub_tag (c # cs) =
     (case (if c = CHR ''<'' then dot_plus_close cs else None) of
        Some n \<Rightarrow> re_sub_tag (drop n cs)
      | None \<Rightarrow> c # re_sub_tag cs)"
  by pat_completeness auto
termination
  by (relation "measure length") auto

text \<open>
  \<open>int(x, 16)\<close> is a parameter, \<open>int16\<close>, of the functions that call it: it gives an
  integer or raises \<open>ValueError\<close>. \<open>chr(i)\<close> raises \<open>ValueError\<close> outside
  \<open>range(0x110000)\<close>, and \<open>OverflowError\<close> when \<open>i\<close> does not fit a C \<open>int\<close>.
\<close>

definition py_chr :: "int \<Rightarrow> error + nat" where
  "py_chr i =
     (if i < - (2 ^ 31) \<or> 2 ^ 31 \<le> i then Inl OverflowError
      else if i < 0 \<or> 0x110000 \<le> i then Inl ValueError
      else Inr (nat i))"

text \<open>
  \<^verbatim>\<open>
  def str_as_escaped(s: str) -> str:
      escaped = ''
      for ch in s:
          escaped += '\\u{{{:04X}}}'.format(ord(ch))
      return escaped
  \<close>
\<close>

fun str_as_escaped_loop :: "nat list \<Rightarrow> string \<Rightarrow> string" where
  "str_as_escaped_loop [] escaped = escaped"
| "str_as_escaped_loop (ch # rest) escaped =
     str_as_escaped_loop rest (escaped @ backslash @ ''u{'' @ format_04X ch @ ''}'')"

definition str_as_escaped :: "nat list \<Rightarrow> string" where
  "str_as_escaped s = str_as_escaped_loop s []"

text \<open>
  \<^verbatim>\<open>
  def dm_map_rs():
      ...
      unicode_data = json.loads(json_str)
      # Make DM_MAP.
      txt = 'pub(super) const DM_MAP: &[(u32, &str)] = &[\n'
      for k, props in unicode_data.items():
          dm_raw = props['dm']
          if dm_raw == '':
              continue
          cp = CodePointRange.parse(k)
          # Make dm_raw to str.
          if dm_raw.startswith('<'):
              dm_raw = re.sub('<.+> ', '', dm_raw)
          dm_str = ''
          for code in dm_raw.split(' '):
              dm_str += '\\u{{{}}}'.format(code)
          txt += '    (0x{:04X}, "{}"),\n'.format(cp.start, dm_str)
      txt += '];\n\n'
      # Make RDM_MAP.
      rdm_list = []
      txt += 'pub(super) const RDM_MAP: &[(&str, u32)] = &[\n'
      for k, props in unicode_data.items():
          dm_raw = props['dm']
          if dm_raw == '':
              continue
          if dm_raw.startswith('<'):
              continue
              dm_raw = re.sub('<.+> ', '', dm_raw)
          dm_str = ''.join(map(lambda x: chr(int(x, 16)), dm_raw.split(' ')))
          rdm_list.append((dm_str, k))
      rdm_list = sorted(rdm_list, key=lambda x: x[0])
      for pair in rdm_list:
          txt += '    ("{}", 0x{}),\n'.format(str_as_escaped(pair[0]), pair[1])
      txt += '];\n'
      return txt
  \<close>
  The parameter \<open>unicode_data\<close> is the dictionary read from \<open>UnicodeData.json\<close>; each of
  its values is a dictionary of properties.
\<close>

fun dm_str_loop :: "string list \<Rightarrow> string \<Rightarrow> string" where
  "dm_str_loop [] dm_str = dm_str"
| "dm_str_loop (code # rest) dm_str =
     dm_str_loop rest (dm_str @ backslash @ ''u{'' @ code @ ''}'')"

definition dm_line :: "nat \<Rightarrow> string \<Rightarrow> string" where
  "dm_line cp dm_str =
     ''    (0x'' @ format_04X cp @ '', '' @ dquote @ dm_str @ dquote @ ''),'' @ newline"

fun dm_map_loop ::
  "(string \<Rightarrow> error + CodePointRange) \<Rightarrow> (string \<times> (string \<times> string) list) list \<Rightarrow>
   string \<Rightarrow> error + string" where
  "dm_map_loop parse [] txt = Inr txt"
| "dm_map_loop parse ((k, props) # rest) txt =
     (case dict_get props ''dm'' of
        Inl e \<Rightarrow> Inl e
      | Inr dm_raw \<Rightarrow>
          if dm_raw = [] then dm_map_loop parse rest txt
          else
            (case parse k of
               Inl e \<Rightarrow> Inl e
             | Inr cp \<Rightarrow>
                 (let dm_raw' = (if startswith_lt dm_raw then re_sub_tag dm_raw else dm_raw);
                      dm_str = dm_str_loop (split_on (CHR '' '') dm_raw') []
                  in dm_map_loop parse rest (txt @ dm_line (start cp) dm_str))))"

fun join_chr :: "(string \<Rightarrow> error + int) \<Rightarrow> string list \<Rightarrow> error + nat list" where
  "join_chr int16 [] = Inr []"
| "join_chr int16 (x # xs) =
     (case int16 x of
        Inl e \<Rightarrow> Inl e
      | Inr i \<Rightarrow>
          (case py_chr i of
             Inl e \<Rightarrow> Inl e
           | Inr ch \<Rightarrow>
               (case join_chr int16 xs of
                  Inl e \<Rightarrow> Inl e
                | Inr chs \<Rightarrow> Inr (ch # chs))))"

fun rdm_list_loop ::
  "(string \<Rightarrow> error + int) \<Rightarrow> (string \<times> (string \<times> string) list) list \<Rightarrow>
   (nat list \<times> string) list \<Rightarrow> error + (nat list \<times> string) list" where
  "rdm_list_loop int16 [] rdm_list = Inr rdm_list"
| "rdm_list_loop int16 ((k, props) # rest) rdm_list =
     (case dict_get props ''dm'' of
        Inl e \<Rightarrow> Inl e
      | Inr dm_raw \<Rightarrow>
          if dm_raw = [] then rdm_list_loop int16 rest rdm_list
          else if startswith_lt dm_raw then rdm_list_loop int16 rest rdm_list
          else
            (case join_chr int16 (split_on (CHR '' '') dm_raw) of
               Inl e \<Rightarrow> Inl e
             | Inr dm_str \<Rightarrow> rdm_list_loop int16 rest (rdm_list @ [(dm_str, k)])))"

text \<open>The variable \<open>rdm_list\<close> as it stands after the call of \<open>sorted\<close>.\<close>

definition rdm_list_sorted ::
  "(string \<Rightarrow> error + int) \<Rightarrow> (string \<times> (string \<times> string) list) list \<Rightarrow>
   error + (nat list \<times> string) list" where
  "rdm_list_sorted int16 unicode_data =
     (case rdm_list_loop int16 unicode_data [] of
        Inl e \<Rightarrow> Inl e
      | Inr rdm_list \<Rightarrow> Inr (py_sorted (<) fst rdm_list))"

definition rdm_line :: "nat list \<times> string \<Rightarrow> string" where
  "rdm_line pair =
     ''    ('' @ dquote @ str_as_escaped (fst pair) @ dquote @ '', 0x'' @ snd pair @ ''),''
       @ newline"

fun rdm_emit_loop :: "(nat list \<times> string) list \<Rightarrow> string \<Rightarrow> string" where
  "rdm_emit_loop [] txt = txt"
| "rdm_emit_loop (pair # rest) txt = rdm_emit_loop rest (txt @ rdm_line pair)"

definition dm_map_header :: string where
  "dm_map_header = ''pub(super) const DM_MAP: &[(u32, &str)] = &['' @ newline"

definition rdm_map_header :: string where
  "rdm_map_header = ''pub(super) const RDM_MAP: &[(&str, u32)] = &['' @ newline"

definition dm_map_rs ::
  "(string \<Rightarrow> error + CodePointRange) \<Rightarrow> (string \<Rightarrow> error + int) \<Rightarrow>
   (string \<times> (string \<times> string) list) list \<Rightarrow> error + string" where
  "dm_map_rs parse int16 unicode_data =
     (case dm_map_loop parse unicode_data dm_map_header of
        Inl e \<Rightarrow> Inl e
      | Inr txt \<Rightarrow>
          (case rdm_list_sorted int16 unicode_data of
             Inl e \<Rightarrow> Inl e
           | Inr rdm_list \<Rightarrow>
               Inr (rdm_emit_loop rdm_list
                      (txt @ ''];'' @ newline @ newline @ rdm_map_header)
                    @ ''];'' @ newline)))"

subsection \<open>The emoji properties in the main program\<close>

text \<open>
  \<^verbatim>\<open>
  def to_snake_case(val: str):
      if val == 'ExtPict':
          return 'ext_pict'
      return val.lower()
  \<close>
  The main program calls it on the result of \<open>find_key_by_value\<close>, which can be \<open>None\<close>;
  \<open>None.lower()\<close> raises \<open>AttributeError\<close>. The method \<open>lower\<close> of Python texts is the
  parameter \<open>lower\<close>.
\<close>

definition to_snake_case :: "(string \<Rightarrow> string) \<Rightarrow> string option \<Rightarrow> error + string" where
  "to_snake_case lower val =
     (case val of
        None \<Rightarrow> Inl AttributeError
      | Some s \<Rightarrow> if s = ''ExtPict'' then Inr ''ext_pict'' else Inr (lower s))"

text \<open>
  \<^verbatim>\<open>
      emoji_props_rs = ''
      emoji_data_dict = make_grouped_data('emoji/emoji-data.json')
      for i, prop in enumerate(emoji_data_dict.keys()):
          use = False
          if i == 0:
              use = True
          prop_alias = to_snake_case(find_key_by_value(property_aliases, prop))
          tst = select_minimal_tst(prop_alias, emoji_data_dict[prop], 1, default_prop='false')
          emoji_props_rs += tst.to_seshat(use=use, prefix=True, boolean=True)
  \<close>
  The method \<open>to_seshat\<close> of \<open>TwoStageTable\<close> is a parameter: it takes the table and the
  arguments \<open>use\<close>, \<open>prefix\<close> and \<open>boolean\<close> and gives the text of one lookup routine.
  The global \<open>property_aliases\<close> is a parameter as well.
\<close>

fun emoji_props_loop ::
  "(string \<Rightarrow> string) \<Rightarrow> (string \<times> string) list \<Rightarrow>
   (string \<Rightarrow> 'd \<Rightarrow> nat \<Rightarrow> string option \<Rightarrow> 'm option \<Rightarrow> error + 'tst) \<Rightarrow>
   ('tst \<Rightarrow> int \<Rightarrow> int) \<Rightarrow> ('tst \<Rightarrow> bool \<Rightarrow> bool \<Rightarrow> bool \<Rightarrow> string) \<Rightarrow>
   (string \<times> 'd) list \<Rightarrow> (nat \<times> string) list \<Rightarrow> string \<Rightarrow> error + string" where
  "emoji_props_loop lower property_aliases make table_bytes to_seshat emoji_data_dict []
     emoji_props_rs = Inr emoji_props_rs"
| "emoji_props_loop lower property_aliases make table_bytes to_seshat emoji_data_dict
     ((i, p) # rest) emoji_props_rs =
     (let use = (if i = 0 then True else False) in
      case to_snake_case lower (find_key_by_value property_aliases p) of
        Inl e \<Rightarrow> Inl e
      | Inr prop_alias \<Rightarrow>
          (case dict_get emoji_data_dict p of
             Inl e \<Rightarrow> Inl e
           | Inr data \<Rightarrow>
               (case select_minimal_tst make table_bytes prop_alias data 1 (Some ''false'')
                       (None :: 'm option) of
                  Inl e \<Rightarrow> Inl e
                | Inr tst \<Rightarrow>
                    emoji_props_loop lower property_aliases make table_bytes to_seshat
                      emoji_data_dict rest
                      (emoji_props_rs @ to_seshat tst use True True))))"

definition emoji_props ::
  "(string \<Rightarrow> string) \<Rightarrow> (string \<times> string) list \<Rightarrow>
   (string \<Rightarrow> 'd \<Rightarrow> nat \<Rightarrow> string option \<Rightarrow> 'm option \<Rightarrow> error + 'tst) \<Rightarrow>
   ('tst \<Rightarrow> int \<Rightarrow> int) \<Rightarrow> ('tst \<Rightarrow> bool \<Rightarrow> bool \<Rightarrow> bool \<Rightarrow> string) \<Rightarrow>
   (string \<times> 'd) list \<Rightarrow> error + string" where
  "emoji_props lower property_aliases make table_bytes to_seshat emoji_data_dict =
     emoji_props_loop lower property_aliases make table_bytes to_seshat emoji_data_dict
       (List.enumerate 0 (map fst emoji_data_dict)) []"

subsection \<open>The table builder\<close>

text \<open>
  Modelled from the spec: the class \<open>TwoStageTable\<close> and its constructor (module
  \<open>ucd.collections\<close>, not among the sources). The definitions of this subsection follow
  the data model and the contract \<open>build(mapping, block_size, default_value, patch=None)\<close>
  of the specification:
  \<^item> a Two-Stage Table is "the pair (Stage-1 Table, Stage-2 Table) plus the block size
    and Default Value used to build it";
  \<^item> the builder is to "apply patch overrides on top of the mapping (patch wins on
    overlap); partition the domain into blocks; for each block compute its full Block
    Content by scanning mapping/patch ranges intersecting that block, filling all other
    positions with Default Value; deduplicate Block Contents into the Stage-2 Table,
    preserving first-seen order for determinism; build the Stage-1 Table of slot ids";
  \<^item> the domain has \<open>\<lceil>domain size / block size\<rceil>\<close> blocks, the last one "padded with
    Default Value at the tail";
  \<^item> it "fails with an \<open>InvalidMappingError\<close> if ranges overlap or are unsorted" and
    "with \<open>DomainOverflowError\<close> if any range exceeds the code point domain bound";
  \<^item> the lookup is \<open>Stage-2[Stage-1[cp div block_size]][cp mod block_size]\<close>.
  The size of the domain is a parameter of \<open>build_domain\<close>, so that the small scenarios
  of the specification can be run; \<open>build\<close> is the builder on the code points
  \<open>0 .. 0x10FFFF\<close>.
\<close>

datatype 'v TwoStageTable =
  TwoStageTable (tst_stage1: "nat list") (tst_stage2: "'v list list")
    (tst_block_size: nat) (tst_default: 'v)


definition intersects_block :: "CodePointRange \<Rightarrow> nat \<Rightarrow> nat \<Rightarrow> bool" where
  "intersects_block r bsize b =
     (start r \<le> end' r \<and> start r < (b + 1) * bsize \<and> b * bsize \<le> end' r)"

definition fill_range :: "'v list \<Rightarrow> nat \<Rightarrow> CodePointRange \<Rightarrow> 'v \<Rightarrow> 'v list" where
  "fill_range content base r v =
     map (\<lambda>(i, x). if cp_in (base + i) r then v else x) (List.enumerate 0 content)"

fun scan_ranges :: "(CodePointRange \<times> 'v) list \<Rightarrow> nat \<Rightarrow> nat \<Rightarrow> 'v list \<Rightarrow> 'v list" where
  "scan_ranges [] bsize b content = content"
| "scan_ranges ((r, v) # rest) bsize b content =
     scan_ranges rest bsize b
       (if intersects_block r bsize b then fill_range content (b * bsize) r v else content)"

definition block_content ::
  "(CodePointRange \<times> 'v) list \<Rightarrow> (CodePointRange \<times> 'v) list \<Rightarrow> 'v \<Rightarrow> nat \<Rightarrow> nat \<Rightarrow> 'v list" where
  "block_content mapping patch default_value bsize b =
     scan_ranges patch bsize b (scan_ranges mapping bsize b (replicate bsize default_value))"

fun index_of :: "'a \<Rightarrow> 'a list \<Rightarrow> nat option" where
  "index_of x [] = None"
| "index_of x (y # ys) = (if y = x then Some 0 else map_option Suc (index_of x ys))"

fun dedup_blocks :: "'v list list \<Rightarrow> 'v list list \<Rightarrow> nat list \<Rightarrow> 'v list list \<times> nat list" where
  "dedup_blocks [] stage2 stage1 = (stage2, stage1)"
| "dedup_blocks (blk # rest) stage2 stage1 =
     (case index_of blk stage2 of
        Some slot \<Rightarrow> dedup_blocks rest stage2 (stage1 @ [slot])
      | None \<Rightarrow> dedup_blocks rest (stage2 @ [blk]) (stage1 @ [length stage2]))"

fun ranges_in_order :: "(CodePointRange \<times> 'v) list \<Rightarrow> bool" where
  "ranges_in_order [] = True"
| "ranges_in_order [x] = True"
| "ranges_in_order (x # y # rest) =
     (end' (fst x) < start (fst y) \<and> ranges_in_order (y # rest))"

definition check_ranges :: "nat \<Rightarrow> (CodePointRange \<times> 'v) list \<Rightarrow> error option" where
  "check_ranges dsize m =
     (if list_ex (\<lambda>(r, v). dsize \<le> start r \<or> dsize \<le> end' r) m then Some DomainOverflowError
      else if \<not> ranges_in_order m then Some InvalidMappingError
      else None)"

definition patch_ranges :: "(CodePointRange \<times> 'v) list option \<Rightarrow> (CodePointRange \<times> 'v) list" where
  "patch_ranges patch = (case patch of None \<Rightarrow> [] | Some p \<Rightarrow> p)"

definition build_domain ::
  "nat \<Rightarrow> (CodePointRange \<times> 'v) list \<Rightarrow> nat \<Rightarrow> 'v \<Rightarrow> (CodePointRange \<times> 'v) list option \<Rightarrow>
   error + 'v TwoStageTable" where
  "build_domain dsize mapping bsize default_value patch =
     (let overrides = patch_ranges patch in
      case check_ranges dsize mapping of
        Some e \<Rightarrow> Inl e
      | None \<Rightarrow>
          (case check_ranges dsize overrides of
             Some e \<Rightarrow> Inl e
           | None \<Rightarrow>
               (let blocks = map (block_content mapping overrides default_value bsize)
                               [0 ..< (dsize + bsize - 1) div bsize];
                    (stage2, stage1) = dedup_blocks blocks [] []
                in Inr (TwoStageTable stage1 stage2 bsize default_value))))"


text \<open>
  Modelled from the spec: the lookup
  \<open>value(cp) = Stage-2[Stage-1[cp div block_size]][cp mod block_size]\<close>. An index out of
  range gives \<open>None\<close>.
\<close>

definition lookup :: "'v TwoStageTable \<Rightarrow> nat \<Rightarrow> 'v option" where
  "lookup t cp =
     (let b = cp div tst_block_size t; i = cp mod tst_block_size t in
      if b < length (tst_stage1 t) \<and> tst_stage1 t ! b < length (tst_stage2 t) \<and>
         i < length (tst_stage2 t ! (tst_stage1 t ! b))
      then Some (tst_stage2 t ! (tst_stage1 t ! b) ! i)
      else None)"




section \<open>Properties\<close>

subsection \<open>The minimum taken by \<open>min\<close>\<close>

lemma min_loop_mem: "min_loop key best xs \<in> set (best # xs)"
  by (induction xs arbitrary: best) auto

lemma min_loop_le_best: "key (min_loop key best xs) \<le> key best"
proof (induction xs arbitrary: best)
  case Nil
  show ?case by simp
next
  case (Cons x xs)
  show ?case
  proof (cases "key x < key best")
    case True
    have "key (min_loop key x xs) \<le> key x" by (rule Cons.IH)
    with True show ?thesis by simp
  next
    case False
    with Cons.IH [of best] show ?thesis by simp
  qed
qed

lemma min_loop_le_all: "y \<in> set xs \<Longrightarrow> key (min_loop key best xs) \<le> key y"
proof (induction xs arbitrary: best)
  case Nil
  then show ?case by simp
next
  case (Cons x xs)
  show ?case
  proof (cases "y = x")
    case True
    show ?thesis
    proof (cases "key x < key best")
      case lt: True
      have "key (min_loop key x xs) \<le> key x" by (rule min_loop_le_best)
      with lt True show ?thesis by simp
    next
      case ge: False
      have "key (min_loop key best xs) \<le> key best" by (rule min_loop_le_best)
      with ge True show ?thesis by simp
    qed
  next
    case False
    with Cons.prems have "y \<in> set xs" by simp
    then show ?thesis using Cons.IH by simp
  qed
qed

text \<open>
  The element returned is the first one that carries the minimal key: written with
  positions, the result sits at an index \<open>i\<close> of \<open>best # xs\<close> and every earlier
  element has a strictly larger key.
\<close>

lemma min_loop_first:
  "\<exists>i < length (best # xs). min_loop key best xs = (best # xs) ! i \<and>
      (\<forall>j < i. key ((best # xs) ! i) < key ((best # xs) ! j))"
proof (induction xs arbitrary: best)
  case Nil
  show ?case by simp
next
  case (Cons x xs)
  show ?case
  proof (cases "key x < key best")
    case True
    from Cons.IH [of x] obtain i where i: "i < length (x # xs)"
      "min_loop key x xs = (x # xs) ! i"
      "\<forall>j < i. key ((x # xs) ! i) < key ((x # xs) ! j)" by blast
    have le: "key ((x # xs) ! i) \<le> key x"
      using min_loop_le_best [of key x xs] i(2) by simp
    have "\<forall>j < Suc i. key ((best # x # xs) ! Suc i) < key ((best # x # xs) ! j)"
    proof (intro allI impI)
      fix j assume "j < Suc i"
      show "key ((best # x # xs) ! Suc i) < key ((best # x # xs) ! j)"
      proof (cases j)
        case 0
        with le True show ?thesis by simp
      next
        case (Suc j')
        with \<open>j < Suc i\<close> have "j' < i" by simp
        with i(3) Suc show ?thesis by simp
      qed
    qed
    moreover have "Suc i < length (best # x # xs)" using i(1) by simp
    moreover have "min_loop key best (x # xs) = (best # x # xs) ! Suc i"
      using True i(2) by simp
    ultimately show ?thesis by blast
  next
    case False
    from Cons.IH [of best] obtain i where i: "i < length (best # xs)"
      "min_loop key best xs = (best # xs) ! i"
      "\<forall>j < i. key ((best # xs) ! i) < key ((best # xs) ! j)" by blast
    show ?thesis
    proof (cases i)
      case 0
      have "min_loop key best (x # xs) = (best # x # xs) ! 0"
        using False i(2) 0 by simp
      then show ?thesis by force
    next
      case (Suc i')
      have r: "min_loop key best (x # xs) = (best # x # xs) ! Suc i"
        using False i(2) Suc by simp
      have "\<forall>j < Suc i. key ((best # x # xs) ! Suc i) < key ((best # x # xs) ! j)"
      proof (intro allI impI)
        fix j assume jl: "j < Suc i"
        show "key ((best # x # xs) ! Suc i) < key ((best # x # xs) ! j)"
        proof (cases j)
          case 0
          have "key ((best # xs) ! i) < key best" using i(3) Suc by force
          with 0 Suc show ?thesis by simp
        next
          case (Suc j')
          show ?thesis
          proof (cases j')
            case 0
            have "key ((best # xs) ! i) < key best" using i(3) \<open>i = Suc i'\<close> by force
            with False 0 \<open>j = Suc j'\<close> \<open>i = Suc i'\<close> show ?thesis by simp
          next
            case (Suc j'')
            with jl \<open>j = Suc j'\<close> have "Suc j'' < i" by simp
            with i(3) have "key ((best # xs) ! i) < key ((best # xs) ! Suc j'')" by blast
            with Suc \<open>j = Suc j'\<close> \<open>i = Suc i'\<close> show ?thesis by simp
          qed
        qed
      qed
      moreover have "Suc i < length (best # x # xs)" using i(1) by simp
      ultimately show ?thesis using r by blast
    qed
  qed
qed

subsection \<open>The tables built by \<open>select_minimal_tst\<close>\<close>

lemma make_tables_ok:
  "(\<forall>bs \<in> set bss. \<exists>t. mk bs = Inr t) \<Longrightarrow>
     make_tables mk bss = Inr (map (\<lambda>bs. (bs, projr (mk bs))) bss)"
  by (induction bss) auto

lemma make_tables_error:
  "make_tables mk bss = Inl e \<Longrightarrow> \<exists>bs \<in> set bss. mk bs = Inl e"
  by (induction bss) (auto split: sum.splits)

lemma select_minimal_tst_error:
  assumes "select_minimal_tst make table_bytes prop data repr_size default_prop missing = Inl e"
  shows "\<exists>bs \<in> set candidate_block_sizes. make prop data bs default_prop missing = Inl e"
proof -
  let ?mk = "\<lambda>block_size. make prop data block_size default_prop missing"
  show ?thesis
  proof (cases "make_tables ?mk candidate_block_sizes")
    case (Inl e')
    with assms have "e' = e" by (simp add: select_minimal_tst_def)
    with Inl make_tables_error [of ?mk candidate_block_sizes e] show ?thesis by simp
  next
    case (Inr tables)
    from make_tables_error [of ?mk candidate_block_sizes]
    have "tables \<noteq> []" using Inr by (auto simp: candidate_block_sizes_def split: sum.splits)
    then obtain x xs where "tables = x # xs" by (cases tables) auto
    with Inr assms show ?thesis by (simp add: select_minimal_tst_def)
  qed
qed

text \<open>
  When the builder succeeds on the four block sizes, the table returned is the one at
  the first position of \<open>[64, 128, 256, 512]\<close> whose byte count is minimal.
\<close>

lemma select_minimal_tst_position:
  assumes ok: "\<forall>bs \<in> set candidate_block_sizes.
                 \<exists>t. make prop data bs default_prop missing = Inr t"
  shows "\<exists>i < length candidate_block_sizes.
           select_minimal_tst make table_bytes prop data repr_size default_prop missing
             = make prop data (candidate_block_sizes ! i) default_prop missing \<and>
           (\<forall>j < length candidate_block_sizes.
              table_bytes (projr (make prop data (candidate_block_sizes ! i) default_prop missing)) repr_size
                \<le> table_bytes (projr (make prop data (candidate_block_sizes ! j) default_prop missing)) repr_size) \<and>
           (\<forall>j < i.
              table_bytes (projr (make prop data (candidate_block_sizes ! i) default_prop missing)) repr_size
                < table_bytes (projr (make prop data (candidate_block_sizes ! j) default_prop missing)) repr_size)"
proof -
  let ?mk = "\<lambda>block_size. make prop data block_size default_prop missing"
  let ?key = "\<lambda>x. table_bytes x repr_size"
  let ?ts = "map (\<lambda>bs. projr (?mk bs)) candidate_block_sizes"
  have tabs: "make_tables ?mk candidate_block_sizes
                = Inr (map (\<lambda>bs. (bs, projr (?mk bs))) candidate_block_sizes)"
    using ok by (rule make_tables_ok)
  have snd_tabs: "map (snd \<circ> (\<lambda>bs. (bs, projr (?mk bs)))) candidate_block_sizes = ?ts"
    by simp
  obtain t0 rest where ts: "?ts = t0 # rest"
    by (simp add: candidate_block_sizes_def)
  have sel: "select_minimal_tst make table_bytes prop data repr_size default_prop missing
               = Inr (min_loop ?key t0 rest)"
    by (simp add: select_minimal_tst_def tabs snd_tabs ts)
  from min_loop_first [of t0 rest ?key] obtain i where i: "i < length (t0 # rest)"
    "min_loop ?key t0 rest = (t0 # rest) ! i"
    "\<forall>j < i. ?key ((t0 # rest) ! i) < ?key ((t0 # rest) ! j)" by blast
  have len: "length (t0 # rest) = length candidate_block_sizes"
    using ts [symmetric] by simp
  have nth: "(t0 # rest) ! j = projr (?mk (candidate_block_sizes ! j))"
    if "j < length candidate_block_sizes" for j
    using that ts [symmetric] by simp
  have il: "i < length candidate_block_sizes" using i(1) len by simp
  have "candidate_block_sizes ! i \<in> set candidate_block_sizes" using il by simp
  with ok obtain t where t: "?mk (candidate_block_sizes ! i) = Inr t" by blast
  have res: "select_minimal_tst make table_bytes prop data repr_size default_prop missing
               = ?mk (candidate_block_sizes ! i)"
    using sel i(2) nth [OF il] t by simp
  have le: "?key (projr (?mk (candidate_block_sizes ! i)))
              \<le> ?key (projr (?mk (candidate_block_sizes ! j)))"
    if jl: "j < length candidate_block_sizes" for j
  proof -
    have "(t0 # rest) ! j \<in> set (t0 # rest)" using jl len by (metis nth_mem)
    then have "(t0 # rest) ! j = t0 \<or> (t0 # rest) ! j \<in> set rest" by simp
    then have "?key (min_loop ?key t0 rest) \<le> ?key ((t0 # rest) ! j)"
      using min_loop_le_best [of ?key t0 rest] min_loop_le_all [of _ rest ?key t0] by auto
    then show ?thesis using i(2) nth [OF il] nth [OF jl] by simp
  qed
  have lt: "?key (projr (?mk (candidate_block_sizes ! i)))
              < ?key (projr (?mk (candidate_block_sizes ! j)))"
    if jl: "j < i" for j
  proof -
    have jlen: "j < length candidate_block_sizes" using jl il by simp
    have "?key ((t0 # rest) ! i) < ?key ((t0 # rest) ! j)" using i(3) jl by blast
    then show ?thesis by (simp only: nth [OF il] nth [OF jlen])
  qed
  show ?thesis using il res le lt by blast
qed

lemma candidate_block_sizes_ascending:
  "j < i \<Longrightarrow> i < length candidate_block_sizes \<Longrightarrow>
     candidate_block_sizes ! j < candidate_block_sizes ! i"
proof -
  assume a: "j < i" "i < length candidate_block_sizes"
  have "sorted_wrt (<) candidate_block_sizes" by (simp add: candidate_block_sizes_def)
  then show ?thesis using a by (simp add: sorted_wrt_iff_nth_less)
qed



text \<open>
  Claim C3. When several candidate block sizes give the minimal
  \<open>table_bytes(repr_size)\<close>, the table returned is the one built with the smallest of
  them: it is built with a block size \<open>bs\<close>, and every candidate whose table has the same
  byte count has a block size of at least \<open>bs\<close>.
\<close>

theorem select_minimal_tst_tie_break:
  assumes ok: "\<forall>bs \<in> set candidate_block_sizes.
                 \<exists>t. make prop data bs default_prop missing = Inr t"
  shows "\<exists>bs \<in> set candidate_block_sizes. \<exists>t.
           make prop data bs default_prop missing = Inr t \<and>
           select_minimal_tst make table_bytes prop data repr_size default_prop missing
             = Inr t \<and>
           (\<forall>bs' \<in> set candidate_block_sizes. \<forall>t'.
              make prop data bs' default_prop missing = Inr t' \<longrightarrow>
                table_bytes t repr_size \<le> table_bytes t' repr_size \<and>
                (table_bytes t' repr_size = table_bytes t repr_size \<longrightarrow> bs \<le> bs'))"
proof -
  let ?mk = "\<lambda>block_size. make prop data block_size default_prop missing"
  from select_minimal_tst_position
         [where make = make and table_bytes = table_bytes and repr_size = repr_size, OF ok]
  obtain i where i: "i < length candidate_block_sizes"
    "select_minimal_tst make table_bytes prop data repr_size default_prop missing
       = ?mk (candidate_block_sizes ! i)"
    "\<forall>j < length candidate_block_sizes.
       table_bytes (projr (?mk (candidate_block_sizes ! i))) repr_size
         \<le> table_bytes (projr (?mk (candidate_block_sizes ! j))) repr_size"
    "\<forall>j < i.
       table_bytes (projr (?mk (candidate_block_sizes ! i))) repr_size
         < table_bytes (projr (?mk (candidate_block_sizes ! j))) repr_size"
    by blast
  let ?bs = "candidate_block_sizes ! i"
  have mem: "?bs \<in> set candidate_block_sizes" using i(1) by simp
  with ok obtain t where t: "?mk ?bs = Inr t" by blast
  have "\<forall>bs' \<in> set candidate_block_sizes. \<forall>t'. ?mk bs' = Inr t' \<longrightarrow>
          table_bytes t repr_size \<le> table_bytes t' repr_size \<and>
          (table_bytes t' repr_size = table_bytes t repr_size \<longrightarrow> ?bs \<le> bs')"
  proof (intro ballI allI impI)
    fix bs' t' assume bs': "bs' \<in> set candidate_block_sizes" and t': "?mk bs' = Inr t'"
    from bs' obtain j where j: "j < length candidate_block_sizes"
      "candidate_block_sizes ! j = bs'" by (auto simp: in_set_conv_nth)
    have le: "table_bytes t repr_size \<le> table_bytes t' repr_size"
      using i(3) j t t' by auto
    have "?bs \<le> bs'" if eq: "table_bytes t' repr_size = table_bytes t repr_size"
    proof (rule ccontr)
      assume "\<not> ?bs \<le> bs'"
      then have "bs' < ?bs" by simp
      have "\<not> i \<le> j"
      proof
        assume "i \<le> j"
        then have "i = j \<or> i < j" by auto
        then have "?bs \<le> candidate_block_sizes ! j"
          using candidate_block_sizes_ascending [of i j] j(1) by auto
        with \<open>bs' < ?bs\<close> j(2) show False by simp
      qed
      then have "j < i" by simp
      with i(4) have "table_bytes (projr (?mk ?bs)) repr_size
                        < table_bytes (projr (?mk (candidate_block_sizes ! j))) repr_size"
        by blast
      with t t' j(2) eq show False by simp
    qed
    with le show "table_bytes t repr_size \<le> table_bytes t' repr_size \<and>
          (table_bytes t' repr_size = table_bytes t repr_size \<longrightarrow> ?bs \<le> bs')" by blast
  qed
  with mem t i(2) show ?thesis by auto
qed

theorem select_minimal_tst_tie_break_witness:
  "list_all (\<lambda>bs. (\<lambda>p d b dp m. Inr b) ''Sc'' ([] :: nat list) bs (Some ''Zzzz'')
                        (None :: unit option) = (Inr bs :: error + nat))
      candidate_block_sizes \<and>
   select_minimal_tst (\<lambda>p d b dp m. Inr b)
     (\<lambda>t r. if t = 64 then 9000 else 4096 * r)
     ''Sc'' ([] :: nat list) 2 (Some ''Zzzz'') (None :: unit option) = (Inr 128 :: error + nat)"
  using select_minimal_tst_tie_break
    [of "\<lambda>p d b dp m. (Inr b :: error + nat)" "''Sc''" "[] :: nat list" "Some ''Zzzz''"
        "None :: unit option" "\<lambda>t r. if t = 64 then 9000 else 4096 * r" 2]
  by (simp add: select_minimal_tst_def candidate_block_sizes_def)

subsection \<open>A value without an alias\<close>

text \<open>
  Claim C4. A value token that has no short alias should abort the conversion. The code
  does not: \<open>find_key_by_value\<close> returns \<open>None\<close> for it, and both \<open>data_value_as_abbr\<close>
  and \<open>patch_data\<close> store \<open>None\<close> as the value of the range and go on. Shown on the
  script value \<open>Klingon\<close> with an alias table that knows \<open>Latin\<close> and \<open>Greek\<close>, and on
  the bidi class \<open>Arabic_Letter\<close> with a table that knows two other classes.
\<close>

theorem missing_alias_gives_None:
  "find_key_by_value [(''Latn'', ''Latin''), (''Grek'', ''Greek'')] ''Klingon'' = None \<and>
   data_value_as_abbr [(''sc'', [(''Latn'', ''Latin''), (''Grek'', ''Greek'')])]
     [(CodePointRange 0x41 0x5A, ''Latin''), (CodePointRange 0xF8D0 0xF8FF, ''Klingon'')] ''sc''
     = Inr [(CodePointRange 0x41 0x5A, Some ''Latn''), (CodePointRange 0xF8D0 0xF8FF, None)] \<and>
   patch_data [(''bc'', [(''L'', ''Left_To_Right''), (''R'', ''Right_To_Left'')])]
     CodePointRange_parse
     [(''0590..05FF'', ''Right_To_Left''), (''0600..07BF'', ''Arabic_Letter'')] ''bc''
     = Inr [(CodePointRange 0x590 0x5FF, Some ''R''), (CodePointRange 0x600 0x7BF, None)]"
  by (simp add: data_value_as_abbr_def patch_data_def property_info_def dict_get_def
        CodePointRange_parse_def hex_number_def hex_digit_def)

subsection \<open>The lists made by \<open>make_data\<close> and \<open>make_grouped_data\<close>\<close>

lemma set_py_insort: "set (py_insort lt key x ys) = insert x (set ys)"
  by (induction ys) auto

lemma length_py_insort: "length (py_insort lt key x ys) = Suc (length ys)"
  by (induction ys) auto

lemma set_py_sorted: "set (py_sorted lt key xs) = set xs"
  unfolding py_sorted_def by (induction xs) (auto simp: set_py_insort)

lemma length_py_sorted: "length (py_sorted lt key xs) = length xs"
  unfolding py_sorted_def by (induction xs) (auto simp: length_py_insort)

lemma sorted_py_insort:
  fixes f :: "'k \<Rightarrow> 'o::linorder"
  assumes lt: "\<And>a b. lt a b = (f a < f b)"
  shows "sorted (map (\<lambda>y. f (key y)) ys) \<Longrightarrow>
         sorted (map (\<lambda>y. f (key y)) (py_insort lt key x ys))"
proof (induction ys)
  case Nil
  show ?case by simp
next
  case (Cons y ys)
  show ?case
  proof (cases "lt (key y) (key x)")
    case True
    then have "f (key y) \<le> f (key x)" by (simp add: lt)
    with Cons True show ?thesis by (auto simp: set_py_insort)
  next
    case False
    then have "f (key x) \<le> f (key y)" by (simp add: lt)
    with Cons.prems False show ?thesis by auto
  qed
qed

lemma sorted_py_sorted:
  fixes f :: "'k \<Rightarrow> 'o::linorder"
  assumes lt: "\<And>a b. lt a b = (f a < f b)"
  shows "sorted (map (\<lambda>y. f (key y)) (py_sorted lt key xs))"
  unfolding py_sorted_def
proof (induction xs)
  case Nil
  show ?case by simp
next
  case (Cons x xs)
  have "sorted (map (\<lambda>y. f (key y)) (py_insort lt key x (foldr (py_insort lt key) xs [])))"
    using lt Cons.IH by (rule sorted_py_insort)
  then show ?case by simp
qed

lemma sorted_by_start:
  "sorted (map (\<lambda>x. start (fst x)) (py_sorted CodePointRange_lt fst xs))"
  by (rule sorted_py_sorted) (simp add: CodePointRange_lt_def)

lemma make_data_loop_Inr:
  "make_data_loop parse d acc = Inr data \<Longrightarrow>
     data = acc @ map (\<lambda>(k, v). (projr (parse k), v)) d \<and>
     (\<forall>(k, v) \<in> set d. \<exists>r. parse k = Inr r)"
proof (induction d arbitrary: acc)
  case Nil
  then show ?case by simp
next
  case (Cons kv d)
  obtain k v where kv: "kv = (k, v)" by (cases kv)
  from Cons.prems kv obtain r where r: "parse k = Inr r"
    by (cases "parse k") auto
  with Cons.prems kv have "make_data_loop parse d (acc @ [(r, v)]) = Inr data" by simp
  from Cons.IH [OF this] r kv show ?case by simp
qed

lemma make_data_loop_total:
  "(\<forall>(k, v) \<in> set d. \<exists>r. parse k = Inr r) \<Longrightarrow>
     \<exists>data. make_data_loop parse d acc = Inr data"
proof (induction d arbitrary: acc)
  case Nil
  show ?case by simp
next
  case (Cons kv d)
  obtain k v where kv: "kv = (k, v)" by (cases kv)
  from Cons.prems kv obtain r where r: "parse k = Inr r" by auto
  from Cons.prems have "\<forall>(k, v) \<in> set d. \<exists>r. parse k = Inr r" by simp
  from Cons.IH [OF this, of "acc @ [(r, v)]"] r kv show ?case by simp
qed

lemma set_dict_set: "set (dict_set k v d) \<subseteq> insert (k, v) (set d)"
  by (induction d) (auto split: if_splits)

lemma grouped_ranges_loop_total:
  "(\<forall>rng \<in> set ranges. \<exists>r. parse rng = Inr r) \<Longrightarrow>
     \<exists>entries. grouped_ranges_loop parse ranges acc = Inr entries"
proof (induction ranges arbitrary: acc)
  case Nil
  show ?case by simp
next
  case (Cons rng ranges)
  from Cons.prems obtain r where r: "parse rng = Inr r" by auto
  from Cons.prems have "\<forall>rng \<in> set ranges. \<exists>r. parse rng = Inr r" by simp
  from Cons.IH [OF this, of "acc @ [(r, ''true'')]"] r show ?case by simp
qed

lemma make_grouped_data_loop_sorted:
  "make_grouped_data_loop parse g acc = Inr data_dict \<Longrightarrow>
   (\<forall>(p, entries) \<in> set acc. sorted (map (\<lambda>x. start (fst x)) entries)) \<Longrightarrow>
   (\<forall>(p, entries) \<in> set data_dict. sorted (map (\<lambda>x. start (fst x)) entries))"
proof (induction g arbitrary: acc)
  case Nil
  then show ?case by simp
next
  case (Cons pr g)
  obtain p ranges where pr: "pr = (p, ranges)" by (cases pr)
  from Cons.prems(1) pr obtain entries where
    en: "grouped_ranges_loop parse ranges [] = Inr entries"
    by (cases "grouped_ranges_loop parse ranges []") auto
  let ?acc = "dict_set p (py_sorted CodePointRange_lt fst entries) (dict_set p [] acc)"
  from Cons.prems(1) pr en have run: "make_grouped_data_loop parse g ?acc = Inr data_dict"
    by simp
  have "set ?acc \<subseteq> insert (p, py_sorted CodePointRange_lt fst entries)
                       (insert (p, []) (set acc))"
    using set_dict_set [of p "py_sorted CodePointRange_lt fst entries" "dict_set p [] acc"]
      set_dict_set [of p "[]" acc] by blast
  then have "\<forall>(q, es) \<in> set ?acc. sorted (map (\<lambda>x. start (fst x)) es)"
    using Cons.prems(2) sorted_by_start [of entries] by auto
  from Cons.IH [OF run this] show ?case .
qed

lemma make_grouped_data_loop_total:
  "(\<forall>(p, ranges) \<in> set g. \<forall>rng \<in> set ranges. \<exists>r. parse rng = Inr r) \<Longrightarrow>
     \<exists>data_dict. make_grouped_data_loop parse g acc = Inr data_dict"
proof (induction g arbitrary: acc)
  case Nil
  show ?case by simp
next
  case (Cons pr g)
  obtain p ranges where pr: "pr = (p, ranges)" by (cases pr)
  from Cons.prems pr have "\<forall>rng \<in> set ranges. \<exists>r. parse rng = Inr r" by auto
  from grouped_ranges_loop_total [OF this, of "[]"] obtain entries where
    en: "grouped_ranges_loop parse ranges [] = Inr entries" by blast
  from Cons.prems have "\<forall>(p, ranges) \<in> set g. \<forall>rng \<in> set ranges. \<exists>r. parse rng = Inr r"
    by simp
  from Cons.IH [OF this] pr en show ?case by simp
qed

text \<open>
  Claim C9. The list returned by \<open>make_data\<close>, and every list in the dictionary
  returned by \<open>make_grouped_data\<close>, is sorted ascending by the start of the range.
  The list of \<open>make_data\<close> holds the parsed entries of the file and no others, and
  both functions return when every range text of the file can be parsed.
\<close>

theorem make_data_sorted:
  "(make_data parse d = Inr data \<longrightarrow>
      sorted (map (\<lambda>x. start (fst x)) data) \<and>
      set data = (\<lambda>(k, v). (projr (parse k), v)) ` set d \<and>
      length data = length d) \<and>
   ((\<forall>(k, v) \<in> set d. \<exists>r. parse k = Inr r) \<longrightarrow> (\<exists>data'. make_data parse d = Inr data')) \<and>
   (make_grouped_data parse g = Inr data_dict \<longrightarrow>
      (\<forall>(p, entries) \<in> set data_dict. sorted (map (\<lambda>x. start (fst x)) entries))) \<and>
   ((\<forall>(p, ranges) \<in> set g. \<forall>rng \<in> set ranges. \<exists>r. parse rng = Inr r) \<longrightarrow>
      (\<exists>data_dict'. make_grouped_data parse g = Inr data_dict'))"
proof (intro conjI impI)
  assume md: "make_data parse d = Inr data"
  then obtain raw where raw: "make_data_loop parse d [] = Inr raw"
    and data: "data = py_sorted CodePointRange_lt fst raw"
    by (auto simp: make_data_def split: sum.splits)
  from make_data_loop_Inr [OF raw]
  have raw_eq: "raw = map (\<lambda>(k, v). (projr (parse k), v)) d" by simp
  show "sorted (map (\<lambda>x. start (fst x)) data)"
    unfolding data by (rule sorted_by_start)
  show "set data = (\<lambda>(k, v). (projr (parse k), v)) ` set d"
    unfolding data by (simp add: set_py_sorted raw_eq)
  show "length data = length d"
    unfolding data by (simp add: length_py_sorted raw_eq)
next
  assume "\<forall>(k, v) \<in> set d. \<exists>r. parse k = Inr r"
  from make_data_loop_total [OF this, of "[]"]
  show "\<exists>data'. make_data parse d = Inr data'" by (auto simp: make_data_def)
next
  assume "make_grouped_data parse g = Inr data_dict"
  then have "make_grouped_data_loop parse g [] = Inr data_dict"
    by (simp add: make_grouped_data_def)
  from make_grouped_data_loop_sorted [OF this]
  show "\<forall>(p, entries) \<in> set data_dict. sorted (map (\<lambda>x. start (fst x)) entries)" by simp
next
  assume "\<forall>(p, ranges) \<in> set g. \<forall>rng \<in> set ranges. \<exists>r. parse rng = Inr r"
  from make_grouped_data_loop_total [OF this, of "[]"]
  show "\<exists>data_dict'. make_grouped_data parse g = Inr data_dict'"
    by (simp add: make_grouped_data_def)
qed

theorem make_data_sorted_witness:
  "make_data CodePointRange_parse
     [(''0061..007A'', ''Ll''), (''0041..005A'', ''Lu''), (''0030..0039'', ''Nd'')]
     = Inr [(CodePointRange 0x30 0x39, ''Nd''), (CodePointRange 0x41 0x5A, ''Lu''),
            (CodePointRange 0x61 0x7A, ''Ll'')] \<and>
   sorted (map (\<lambda>x. start (fst x))
     [(CodePointRange 0x30 0x39, ''Nd''), (CodePointRange 0x41 0x5A, ''Lu''),
      (CodePointRange 0x61 0x7A, ''Ll'')]) \<and>
   make_grouped_data CodePointRange_parse
     [(''Emoji'', [''00A9'', ''0023'', ''0030..0039'']),
      (''Extended_Pictographic'', [''1F000..1F02B'', ''00AE''])]
     = Inr [(''Emoji'', [(CodePointRange 0x23 0x23, ''true''), (CodePointRange 0x30 0x39, ''true''),
                        (CodePointRange 0xA9 0xA9, ''true'')]),
            (''Extended_Pictographic'',
               [(CodePointRange 0xAE 0xAE, ''true''), (CodePointRange 0x1F000 0x1F02B, ''true'')])]"
  using make_data_sorted
    [of CodePointRange_parse
        "[(''0061..007A'', ''Ll''), (''0041..005A'', ''Lu''), (''0030..0039'', ''Nd'')]"
        "[(CodePointRange 0x30 0x39, ''Nd''), (CodePointRange 0x41 0x5A, ''Lu''),
          (CodePointRange 0x61 0x7A, ''Ll'')]"
        "[(''Emoji'', [''00A9'', ''0023'', ''0030..0039'']),
          (''Extended_Pictographic'', [''1F000..1F02B'', ''00AE''])]"
        "[(''Emoji'', [(CodePointRange 0x23 0x23, ''true''), (CodePointRange 0x30 0x39, ''true''),
                      (CodePointRange 0xA9 0xA9, ''true'')]),
          (''Extended_Pictographic'',
             [(CodePointRange 0xAE 0xAE, ''true''), (CodePointRange 0x1F000 0x1F02B, ''true'')])]"]
  by (simp add: make_data_def make_grouped_data_def py_sorted_def CodePointRange_lt_def
        CodePointRange_parse_def hex_number_def hex_digit_def)

subsection \<open>The name table\<close>

lemma replicate_numeral_eq: "replicate (numeral v) x = x # replicate (numeral v - 1) x"
  by (simp add: numeral_eq_Suc)

lemma ignore_loop_iff:
  "ignore_loop cp rngs ignore = (ignore \<or> (\<exists>rng \<in> set rngs. cp_in cp rng))"
  by (induction rngs arbitrary: ignore) auto

lemma na_table_loop_eq:
  assumes "\<forall>(k, name) \<in> set d. parse k = Inr (p k)"
  shows "na_table_loop parse d out =
           Inr (out @ concat (map (\<lambda>(k, name). na_line (start (p k)) name)
                  (filter (\<lambda>(k, name). \<not> (\<exists>rng \<in> set derived_na_ranges. cp_in (start (p k)) rng))
                     d)))"
  using assms
proof (induction d arbitrary: out)
  case Nil
  show ?case by simp
next
  case (Cons kn d)
  obtain k name where kn: "kn = (k, name)" by (cases kn)
  from Cons.prems kn have pk: "parse k = Inr (p k)" by simp
  from Cons.prems have rest: "\<forall>(k, name) \<in> set d. parse k = Inr (p k)" by simp
  show ?case
    unfolding kn using pk Cons.IH [OF rest]
    by (simp add: ignore_loop_iff Let_def)
qed

lemma na_table_loop_error:
  "na_table_loop parse d out = Inl e \<Longrightarrow> \<exists>(k, name) \<in> set d. parse k = Inl e"
proof (induction d arbitrary: out)
  case Nil
  then show ?case by simp
next
  case (Cons kn d)
  obtain k name where kn: "kn = (k, name)" by (cases kn)
  show ?case
  proof (cases "parse k")
    case (Inl e')
    with Cons.prems kn show ?thesis by simp
  next
    case (Inr r)
    with Cons.prems kn obtain out' where "na_table_loop parse d out' = Inl e"
      by (auto simp: Let_def)
    from Cons.IH [OF this] show ?thesis by auto
  qed
qed

text \<open>
  Claim C6. \<open>na_table_rs\<close> writes no line for an entry whose code point lies in one
  of the ranges of \<open>derived_na_ranges\<close>, and writes the line of every other entry, in
  the order of the file: the text returned is the header, the lines of exactly the
  entries outside the ranges, and the closing line. The function \<open>p\<close> names the
  range that \<open>parse\<close> gives for each key of the file.
\<close>

theorem na_table_rs_skips_derived:
  assumes "\<forall>(k, name) \<in> set d. parse k = Inr (p k)"
  shows "na_table_rs parse d =
           Inr (na_table_header @
                concat (map (\<lambda>(k, name). na_line (start (p k)) name)
                  (filter (\<lambda>(k, name). \<not> (\<exists>rng \<in> set derived_na_ranges. cp_in (start (p k)) rng))
                     d)) @
                ''];'' @ newline)"
  using na_table_loop_eq [OF assms, of na_table_header]
  by (simp add: na_table_rs_def)

theorem na_table_rs_skips_derived_witness:
  "list_all (\<lambda>(k, name). CodePointRange_parse k = Inr (projr (CodePointRange_parse k)))
     [(''0041'', ''LATIN CAPITAL LETTER A''), (''AC00'', ''HANGUL SYLLABLE GA''),
      (''4E00'', ''CJK UNIFIED IDEOGRAPH-4E00''), (''1F600'', ''GRINNING FACE'')] \<and>
   na_table_rs CodePointRange_parse
     [(''0041'', ''LATIN CAPITAL LETTER A''), (''AC00'', ''HANGUL SYLLABLE GA''),
      (''4E00'', ''CJK UNIFIED IDEOGRAPH-4E00''), (''1F600'', ''GRINNING FACE'')]
     = Inr (na_table_header @
            ''    (0x0041, '' @ dquote @ ''LATIN CAPITAL LETTER A'' @ dquote @ ''),'' @ newline @
            ''    (0x1F600, '' @ dquote @ ''GRINNING FACE'' @ dquote @ ''),'' @ newline @
            ''];'' @ newline)"
  using na_table_rs_skips_derived
    [of "[(''0041'', ''LATIN CAPITAL LETTER A''), (''AC00'', ''HANGUL SYLLABLE GA''),
          (''4E00'', ''CJK UNIFIED IDEOGRAPH-4E00''), (''1F600'', ''GRINNING FACE'')]"
        CodePointRange_parse "\<lambda>k. projr (CodePointRange_parse k)"]
  by (simp add: CodePointRange_parse_def hex_number_def hex_digit_def derived_na_ranges_def
        cp_in_def na_line_def format_04X_def to_hex.simps upper_hex_digit_def
        replicate_numeral_eq)

subsection \<open>The decomposition tables\<close>

lemma rdm_emit_loop_eq: "rdm_emit_loop rdm out = out @ concat (map rdm_line rdm)"
  by (induction rdm arbitrary: out) auto

lemma rdm_list_loop_sources:
  "rdm_list_loop int16 d acc = Inr l \<Longrightarrow> (s, k) \<in> set l \<Longrightarrow> (s, k) \<notin> set acc \<Longrightarrow>
     \<exists>props dm. (k, props) \<in> set d \<and> dict_get props ''dm'' = Inr dm \<and> dm \<noteq> [] \<and>
        \<not> startswith_lt dm \<and> join_chr int16 (split_on (CHR '' '') dm) = Inr s"
proof (induction d arbitrary: acc)
  case Nil
  then show ?case by simp
next
  case (Cons kp d)
  obtain k' props' where kp: "kp = (k', props')" by (cases kp)
  from Cons.prems(1) kp obtain dm' where dm': "dict_get props' ''dm'' = Inr dm'"
    by (cases "dict_get props' ''dm''") auto
  show ?case
  proof (cases "dm' = [] \<or> startswith_lt dm'")
    case True
    with Cons.prems(1) kp dm' have "rdm_list_loop int16 d acc = Inr l"
      by (auto split: if_splits)
    from Cons.IH [OF this Cons.prems(2,3)] show ?thesis by auto
  next
    case False
    with Cons.prems(1) kp dm' obtain s' where
      s': "join_chr int16 (split_on (CHR '' '') dm') = Inr s'"
      by (cases "join_chr int16 (split_on (CHR '' '') dm')") auto
    with Cons.prems(1) kp dm' False
    have run: "rdm_list_loop int16 d (acc @ [(s', k')]) = Inr l" by auto
    show ?thesis
    proof (cases "(s, k) = (s', k')")
      case True
      with kp dm' False s' show ?thesis by auto
    next
      case False
      with Cons.prems(3) have "(s, k) \<notin> set (acc @ [(s', k')])" by simp
      from Cons.IH [OF run Cons.prems(2) this] show ?thesis by auto
    qed
  qed
qed

lemma rdm_list_sorted_sources:
  assumes "rdm_list_sorted int16 d = Inr rdm" and "(s, k) \<in> set rdm"
  shows "\<exists>props dm. (k, props) \<in> set d \<and> dict_get props ''dm'' = Inr dm \<and> dm \<noteq> [] \<and>
           \<not> startswith_lt dm \<and> join_chr int16 (split_on (CHR '' '') dm) = Inr s"
proof -
  from assms(1) obtain l where l: "rdm_list_loop int16 d [] = Inr l"
    and rdm: "rdm = py_sorted (<) fst l"
    by (auto simp: rdm_list_sorted_def split: sum.splits)
  from assms(2) rdm have "(s, k) \<in> set l" by (simp add: set_py_sorted)
  with rdm_list_loop_sources [OF l] show ?thesis by simp
qed

lemma rdm_list_sorted_sorted:
  assumes "rdm_list_sorted int16 d = Inr rdm"
  shows "sorted (map fst rdm)"
proof -
  from assms obtain l where rdm: "rdm = py_sorted (<) fst l"
    by (auto simp: rdm_list_sorted_def split: sum.splits)
  have "sorted (map (\<lambda>y. id (fst y)) (py_sorted (<) fst l))"
    by (rule sorted_py_sorted) simp
  then show ?thesis unfolding rdm by (simp add: comp_def)
qed

lemma dm_map_rs_parts:
  assumes "dm_map_rs parse int16 d = Inr out"
  shows "\<exists>txt1 rdm. dm_map_loop parse d dm_map_header = Inr txt1 \<and>
           rdm_list_sorted int16 d = Inr rdm \<and>
           out = txt1 @ ''];'' @ newline @ newline @ rdm_map_header @
                 concat (map rdm_line rdm) @ ''];'' @ newline"
  using assms
  by (auto simp: dm_map_rs_def rdm_emit_loop_eq split: sum.splits)

text \<open>
  Claim C7. In the text returned by \<open>dm_map_rs\<close> the table \<open>RDM_MAP\<close> holds one
  line for each entry of the sorted \<open>rdm_list\<close>. That list is sorted ascending by the
  decomposition text, and each of its entries comes from an entry of the input whose
  \<open>dm\<close> field is not empty and does not begin with \<open><\<close>: no entry with a tagged
  (compatibility) decomposition is in the table.
\<close>

theorem rdm_map_canonical_sorted:
  assumes "dm_map_rs parse int16 d = Inr out"
  shows "\<exists>txt1 rdm. dm_map_loop parse d dm_map_header = Inr txt1 \<and>
           rdm_list_sorted int16 d = Inr rdm \<and>
           out = txt1 @ ''];'' @ newline @ newline @ rdm_map_header @
                 concat (map rdm_line rdm) @ ''];'' @ newline \<and>
           sorted (map fst rdm) \<and>
           (\<forall>(s, k) \<in> set rdm. \<exists>props dm.
              (k, props) \<in> set d \<and> dict_get props ''dm'' = Inr dm \<and> dm \<noteq> [] \<and>
              \<not> startswith_lt dm \<and> join_chr int16 (split_on (CHR '' '') dm) = Inr s)"
proof -
  from dm_map_rs_parts [OF assms] obtain txt1 rdm where
    p: "dm_map_loop parse d dm_map_header = Inr txt1" "rdm_list_sorted int16 d = Inr rdm"
       "out = txt1 @ ''];'' @ newline @ newline @ rdm_map_header @
              concat (map rdm_line rdm) @ ''];'' @ newline" by blast
  have "sorted (map fst rdm)" using p(2) by (rule rdm_list_sorted_sorted)
  moreover have "\<forall>(s, k) \<in> set rdm. \<exists>props dm.
              (k, props) \<in> set d \<and> dict_get props ''dm'' = Inr dm \<and> dm \<noteq> [] \<and>
              \<not> startswith_lt dm \<and> join_chr int16 (split_on (CHR '' '') dm) = Inr s"
    using rdm_list_sorted_sources [OF p(2)] by auto
  ultimately show ?thesis using p by blast
qed

theorem rdm_map_canonical_sorted_witness:
  "dm_map_rs CodePointRange_parse
     (\<lambda>x. case hex_number x of Inl e \<Rightarrow> Inl e | Inr n \<Rightarrow> Inr (int n))
     [(''00A0'', [(''na'', ''NO-BREAK SPACE''), (''dm'', ''<noBreak> 0020'')]),
      (''00C5'', [(''dm'', ''0041 030A'')]),
      (''0041'', [(''dm'', [])]),
      (''00C0'', [(''dm'', ''0041 0300'')])]
     = Inr (dm_map_header @
          dm_line 0xA0 (backslash @ ''u{0020}'') @
          dm_line 0xC5 (backslash @ ''u{0041}'' @ backslash @ ''u{030A}'') @
          dm_line 0xC0 (backslash @ ''u{0041}'' @ backslash @ ''u{0300}'') @
          ''];'' @ newline @ newline @
          rdm_map_header @
          rdm_line ([0x41, 0x300], ''00C0'') @
          rdm_line ([0x41, 0x30A], ''00C5'') @
          ''];'' @ newline) \<and>
   rdm_list_sorted
     (\<lambda>x. case hex_number x of Inl e \<Rightarrow> Inl e | Inr n \<Rightarrow> Inr (int n))
     [(''00A0'', [(''na'', ''NO-BREAK SPACE''), (''dm'', ''<noBreak> 0020'')]),
      (''00C5'', [(''dm'', ''0041 030A'')]),
      (''0041'', [(''dm'', [])]),
      (''00C0'', [(''dm'', ''0041 0300'')])]
     = Inr [([0x41, 0x300], ''00C0''), ([0x41, 0x30A], ''00C5'')] \<and>
   sorted (map fst [([0x41, 0x300 :: nat], ''00C0''), ([0x41, 0x30A], ''00C5'')])"
  using rdm_map_canonical_sorted
    [of CodePointRange_parse
        "(\<lambda>x. case hex_number x of Inl e \<Rightarrow> Inl e | Inr n \<Rightarrow> Inr (int n))"
        "[(''00A0'', [(''na'', ''NO-BREAK SPACE''), (''dm'', ''<noBreak> 0020'')]),
      (''00C5'', [(''dm'', ''0041 030A'')]),
      (''0041'', [(''dm'', [])]),
      (''00C0'', [(''dm'', ''0041 0300'')])]"
        "(dm_map_header @
          dm_line 0xA0 (backslash @ ''u{0020}'') @
          dm_line 0xC5 (backslash @ ''u{0041}'' @ backslash @ ''u{030A}'') @
          dm_line 0xC0 (backslash @ ''u{0041}'' @ backslash @ ''u{0300}'') @
          ''];'' @ newline @ newline @
          rdm_map_header @
          rdm_line ([0x41, 0x300], ''00C0'') @
          rdm_line ([0x41, 0x30A], ''00C5'') @
          ''];'' @ newline)"]
  by (simp add: dm_map_rs_def rdm_list_sorted_def py_sorted_def dict_get_def startswith_lt_def
        dot_plus_close_def py_chr_def CodePointRange_parse_def hex_number_def hex_digit_def)

lemma dm_str_loop_eq:
  "dm_str_loop codes acc =
     acc @ concat (map (\<lambda>code. backslash @ ''u{'' @ code @ ''}'') codes)"
  by (induction codes arbitrary: acc) auto

lemma dm_map_loop_acc:
  "dm_map_loop parse d out =
     (case dm_map_loop parse d [] of Inl e \<Rightarrow> Inl e | Inr t \<Rightarrow> Inr (out @ t))"
proof (induction d arbitrary: out)
  case Nil
  show ?case by simp
next
  case (Cons kp d)
  obtain k props where kp: "kp = (k, props)" by (cases kp)
  show ?case
  proof (cases "dict_get props ''dm''")
    case (Inl e)
    then show ?thesis by (simp add: kp)
  next
    case dm: (Inr dm_raw)
    show ?thesis
    proof (cases "dm_raw = []")
      case True
      with dm Cons.IH [of out] show ?thesis by (simp add: kp)
    next
      case False
      show ?thesis
      proof (cases "parse k")
        case (Inl e)
        with dm False show ?thesis by (simp add: kp)
      next
        case (Inr cp)
        define line where "line = dm_line (start cp)
          (dm_str_loop (split_on (CHR '' '')
             (if startswith_lt dm_raw then re_sub_tag dm_raw else dm_raw)) [])"
        have l: "dm_map_loop parse (kp # d) out = dm_map_loop parse d (out @ line)"
          and r: "dm_map_loop parse (kp # d) [] = dm_map_loop parse d line"
          using dm False Inr by (simp_all add: kp line_def Let_def)
        show ?thesis
          unfolding l r using Cons.IH [of "out @ line"] Cons.IH [of line]
          by (simp split: sum.splits)
      qed
    qed
  qed
qed

lemma dm_map_loop_append:
  "dm_map_loop parse (xs @ ys) out =
     (case dm_map_loop parse xs out of Inl e \<Rightarrow> Inl e | Inr t \<Rightarrow> dm_map_loop parse ys t)"
proof (induction xs arbitrary: out)
  case Nil
  show ?case by simp
next
  case (Cons kp xs)
  obtain k props where kp: "kp = (k, props)" by (cases kp)
  show ?case
    using Cons.IH by (simp add: kp Let_def split: sum.splits)
qed

lemma dot_star_close_no_gt: "CHR ''>'' \<notin> set s \<Longrightarrow> dot_star_close s = None"
  by (induction s) auto

lemma dot_star_close_tag:
  "CHR 0x0A \<notin> set xs \<Longrightarrow> CHR ''>'' \<notin> set rest \<Longrightarrow>
     dot_star_close (xs @ ''> '' @ rest) = Some (length xs + 2)"
proof (induction xs)
  case Nil
  have "dot_star_close (CHR '' '' # rest) = None"
    using Nil.prems(2) by (intro dot_star_close_no_gt) simp
  then show ?case by simp
next
  case (Cons x xs)
  then show ?case by auto
qed

lemma re_sub_tag_no_gt: "CHR ''>'' \<notin> set s \<Longrightarrow> re_sub_tag s = s"
proof (induction s)
  case Nil
  show ?case by simp
next
  case (Cons c cs)
  then have "dot_plus_close cs = None"
    by (cases cs) (auto simp: dot_plus_close_def dot_star_close_no_gt)
  with Cons show ?case by simp
qed

lemma re_sub_tag_strips:
  assumes "tag \<noteq> []" and "CHR 0x0A \<notin> set tag" and "CHR ''>'' \<notin> set rest"
  shows "re_sub_tag (''<'' @ tag @ ''> '' @ rest) = rest"
proof -
  from assms(1) obtain t ts where tag: "tag = t # ts" by (cases tag) auto
  with assms(2) have t: "t \<noteq> CHR 0x0A" and ts: "CHR 0x0A \<notin> set ts" by auto
  have "dot_plus_close (tag @ ''> '' @ rest) = Some (Suc (length ts + 2))"
    using t dot_star_close_tag [OF ts assms(3)] by (simp add: dot_plus_close_def tag)
  then have "re_sub_tag (''<'' @ tag @ ''> '' @ rest)
               = re_sub_tag (drop (Suc (length ts + 2)) (tag @ ''> '' @ rest))"
    by simp
  also have "drop (Suc (length ts + 2)) (tag @ ''> '' @ rest) = rest"
    by (simp add: tag)
  finally show ?thesis using assms(3) by (simp add: re_sub_tag_no_gt)
qed

text \<open>
  Claim C10. The two tables are not inverse to each other. Take an entry of the input
  whose \<open>dm\<close> field is a tagged decomposition: \<open><\<close>, a tag, \<open>>\<close>, a space, and the
  code points (\<open>rest\<close>). The text returned by \<open>dm_map_rs\<close> then holds, in \<open>DM_MAP\<close>
  between the lines of the entries before and after it, the line of that entry with the
  code points of \<open>rest\<close> alone (the tag is removed), while the list written as
  \<open>RDM_MAP\<close> holds no entry for its key. The keys of the input are distinct, as those
  of a JSON object read into a dictionary are.
\<close>

theorem dm_map_not_round_trip:
  assumes run: "dm_map_rs parse int16 (earlier @ (k, props) # later) = Inr out"
    and keys: "distinct (map fst (earlier @ (k, props) # later))"
    and dm: "dict_get props ''dm'' = Inr (''<'' @ tag @ ''> '' @ rest)"
    and tag: "tag \<noteq> []" "CHR 0x0A \<notin> set tag"
    and rest: "CHR ''>'' \<notin> set rest"
  shows "\<exists>cp pre post rdm.
           parse k = Inr cp \<and>
           dm_map_loop parse earlier [] = Inr pre \<and>
           dm_map_loop parse later [] = Inr post \<and>
           rdm_list_sorted int16 (earlier @ (k, props) # later) = Inr rdm \<and>
           out = dm_map_header @ pre @
                 ''    (0x'' @ format_04X (start cp) @ '', '' @ dquote @
                 concat (map (\<lambda>code. backslash @ ''u{'' @ code @ ''}'')
                           (split_on (CHR '' '') rest)) @
                 dquote @ ''),'' @ newline @
                 post @ ''];'' @ newline @ newline @
                 rdm_map_header @ concat (map rdm_line rdm) @ ''];'' @ newline \<and>
           k \<notin> snd ` set rdm"
proof -
  let ?d = "earlier @ (k, props) # later"
  let ?dm = "''<'' @ tag @ ''> '' @ rest"
  let ?line = "''    (0x'' @ format_04X (start (projr (parse k))) @ '', '' @ dquote @
                 concat (map (\<lambda>code. backslash @ ''u{'' @ code @ ''}'')
                           (split_on (CHR '' '') rest)) @
                 dquote @ ''),'' @ newline"
  from dm_map_rs_parts [OF run] obtain txt1 rdm where
    p: "dm_map_loop parse ?d dm_map_header = Inr txt1" "rdm_list_sorted int16 ?d = Inr rdm"
       "out = txt1 @ ''];'' @ newline @ newline @ rdm_map_header @
              concat (map rdm_line rdm) @ ''];'' @ newline"
    by blast
  have tagged: "startswith_lt ?dm" by (simp add: startswith_lt_def)
  have nonempty: "?dm \<noteq> []" by simp
  have strip: "re_sub_tag ?dm = rest" using tag rest by (rule re_sub_tag_strips)
  from p(1) obtain pre where pre: "dm_map_loop parse earlier dm_map_header = Inr pre"
    and at_k: "dm_map_loop parse ((k, props) # later) pre = Inr txt1"
    by (auto simp: dm_map_loop_append split: sum.splits)
  from pre obtain pre0 where pre0: "dm_map_loop parse earlier [] = Inr pre0"
    and pre_eq: "pre = dm_map_header @ pre0"
    using dm_map_loop_acc [of parse earlier dm_map_header] by (auto split: sum.splits)
  from at_k dm nonempty obtain cp where cp: "parse k = Inr cp"
    by (cases "parse k") (auto simp del: append.simps)
  have line: "dm_line (start cp)
                (dm_str_loop (split_on (CHR '' '')
                   (if startswith_lt ?dm then re_sub_tag ?dm else ?dm)) []) = ?line"
    unfolding strip using tagged cp by (simp add: dm_line_def dm_str_loop_eq)
  from at_k dm nonempty cp
  have "dm_map_loop parse later
          (pre @ dm_line (start cp)
                   (dm_str_loop (split_on (CHR '' '')
                      (if startswith_lt ?dm then re_sub_tag ?dm else ?dm)) [])) = Inr txt1"
    by (simp add: Let_def del: append.simps)
  then have "dm_map_loop parse later (pre @ ?line) = Inr txt1" unfolding line .
  then obtain post where post: "dm_map_loop parse later [] = Inr post"
    and txt1: "txt1 = (pre @ ?line) @ post"
    using dm_map_loop_acc [of parse later "pre @ ?line"] by (auto split: sum.splits)
  have out: "out = dm_map_header @ pre0 @
                 ''    (0x'' @ format_04X (start cp) @ '', '' @ dquote @
                 concat (map (\<lambda>code. backslash @ ''u{'' @ code @ ''}'')
                           (split_on (CHR '' '') rest)) @
                 dquote @ ''),'' @ newline @
                 post @ ''];'' @ newline @ newline @
                 rdm_map_header @ concat (map rdm_line rdm) @ ''];'' @ newline"
    using p(3) txt1 pre_eq cp by simp
  have "k \<notin> snd ` set rdm"
  proof
    assume "k \<in> snd ` set rdm"
    then obtain s where "(s, k) \<in> set rdm" by auto
    from rdm_list_sorted_sources [OF p(2) this] obtain props' dm' where
      s: "(k, props') \<in> set ?d" "dict_get props' ''dm'' = Inr dm'" "\<not> startswith_lt dm'"
      by blast
    have mem: "(k, props) \<in> set ?d" by simp
    from keys mem s(1) have "props' = props" by (meson eq_key_imp_eq_value)
    with s(2,3) dm tagged show False by simp
  qed
  with cp pre0 post p(2) out show ?thesis by blast
qed

theorem dm_map_not_round_trip_witness:
  "dm_map_rs CodePointRange_parse
     (\<lambda>x. case hex_number x of Inl e \<Rightarrow> Inl e | Inr n \<Rightarrow> Inr (int n))
     [(''00C5'', [(''dm'', ''0041 030A'')]),
      (''2460'', [(''na'', ''CIRCLED DIGIT ONE''), (''dm'', ''<circle> 0031'')]),
      (''0041'', [(''dm'', [])]),
      (''00C0'', [(''dm'', ''0041 0300'')])]
     = Inr (''pub(super) const DM_MAP: &[(u32, &str)] = &['' @ [CHR 0x0A] @
          ''    (0x00C5, '' @ [CHR 0x22] @ [CHR 0x5C] @ ''u{0041}'' @ [CHR 0x5C] @ ''u{030A}'' @ [CHR 0x22] @ ''),'' @ [CHR 0x0A] @
          ''    (0x2460, '' @ [CHR 0x22] @ [CHR 0x5C] @ ''u{0031}'' @ [CHR 0x22] @ ''),'' @ [CHR 0x0A] @
          ''    (0x00C0, '' @ [CHR 0x22] @ [CHR 0x5C] @ ''u{0041}'' @ [CHR 0x5C] @ ''u{0300}'' @ [CHR 0x22] @ ''),'' @ [CHR 0x0A] @
          ''];'' @ [CHR 0x0A] @
          [CHR 0x0A] @
          ''pub(super) const RDM_MAP: &[(&str, u32)] = &['' @ [CHR 0x0A] @
          ''    ('' @ [CHR 0x22] @ [CHR 0x5C] @ ''u{0041}'' @ [CHR 0x5C] @ ''u{0300}'' @ [CHR 0x22] @ '', 0x00C0),'' @ [CHR 0x0A] @
          ''    ('' @ [CHR 0x22] @ [CHR 0x5C] @ ''u{0041}'' @ [CHR 0x5C] @ ''u{030A}'' @ [CHR 0x22] @ '', 0x00C5),'' @ [CHR 0x0A] @
          ''];'' @ [CHR 0x0A]) \<and>
   distinct (map fst
     [(''00C5'', [(''dm'', ''0041 030A'')]),
      (''2460'', [(''na'', ''CIRCLED DIGIT ONE''), (''dm'', ''<circle> 0031'')]),
      (''0041'', [(''dm'', [])]),
      (''00C0'', [(''dm'', ''0041 0300'')])]) \<and>
   dict_get [(''na'', ''CIRCLED DIGIT ONE''), (''dm'', ''<circle> 0031'')] ''dm''
     = Inr (''<'' @ ''circle'' @ ''> '' @ ''0031'') \<and>
   rdm_list_sorted
     (\<lambda>x. case hex_number x of Inl e \<Rightarrow> Inl e | Inr n \<Rightarrow> Inr (int n))
     [(''00C5'', [(''dm'', ''0041 030A'')]),
      (''2460'', [(''na'', ''CIRCLED DIGIT ONE''), (''dm'', ''<circle> 0031'')]),
      (''0041'', [(''dm'', [])]),
      (''00C0'', [(''dm'', ''0041 0300'')])]
     = Inr [([0x41, 0x300], ''00C0''), ([0x41, 0x30A], ''00C5'')] \<and>
   ''2460'' \<notin> snd ` set [([0x41, 0x300 :: nat], ''00C0''), ([0x41, 0x30A], ''00C5'')]"
proof -
  let ?int16 = "(\<lambda>x. case hex_number x of Inl e \<Rightarrow> Inl e | Inr n \<Rightarrow> Inr (int n))"
  let ?d = "[(''00C5'', [(''dm'', ''0041 030A'')]),
      (''2460'', [(''na'', ''CIRCLED DIGIT ONE''), (''dm'', ''<circle> 0031'')]),
      (''0041'', [(''dm'', [])]),
      (''00C0'', [(''dm'', ''0041 0300'')])]"
  let ?out = "(''pub(super) const DM_MAP: &[(u32, &str)] = &['' @ [CHR 0x0A] @
          ''    (0x00C5, '' @ [CHR 0x22] @ [CHR 0x5C] @ ''u{0041}'' @ [CHR 0x5C] @ ''u{030A}'' @ [CHR 0x22] @ ''),'' @ [CHR 0x0A] @
          ''    (0x2460, '' @ [CHR 0x22] @ [CHR 0x5C] @ ''u{0031}'' @ [CHR 0x22] @ ''),'' @ [CHR 0x0A] @
          ''    (0x00C0, '' @ [CHR 0x22] @ [CHR 0x5C] @ ''u{0041}'' @ [CHR 0x5C] @ ''u{0300}'' @ [CHR 0x22] @ ''),'' @ [CHR 0x0A] @
          ''];'' @ [CHR 0x0A] @
          [CHR 0x0A] @
          ''pub(super) const RDM_MAP: &[(&str, u32)] = &['' @ [CHR 0x0A] @
          ''    ('' @ [CHR 0x22] @ [CHR 0x5C] @ ''u{0041}'' @ [CHR 0x5C] @ ''u{0300}'' @ [CHR 0x22] @ '', 0x00C0),'' @ [CHR 0x0A] @
          ''    ('' @ [CHR 0x22] @ [CHR 0x5C] @ ''u{0041}'' @ [CHR 0x5C] @ ''u{030A}'' @ [CHR 0x22] @ '', 0x00C5),'' @ [CHR 0x0A] @
          ''];'' @ [CHR 0x0A])"
  have rdm: "rdm_list_sorted ?int16 ?d = Inr [([0x41, 0x300], ''00C0''), ([0x41, 0x30A], ''00C5'')]"
    by (simp add: rdm_list_sorted_def py_sorted_def dict_get_def startswith_lt_def py_chr_def
          hex_number_def hex_digit_def)
  have dm_part: "dm_map_loop CodePointRange_parse ?d dm_map_header
      = Inr (dm_map_header @ dm_line 0xC5 ([CHR 0x5C] @ ''u{0041}'' @ [CHR 0x5C] @ ''u{030A}'') @
             dm_line 0x2460 ([CHR 0x5C] @ ''u{0031}'') @
             dm_line 0xC0 ([CHR 0x5C] @ ''u{0041}'' @ [CHR 0x5C] @ ''u{0300}''))"
    by (simp add: dict_get_def startswith_lt_def dot_plus_close_def CodePointRange_parse_def
          hex_number_def hex_digit_def backslash_def)
  have fmt: "format_04X 0xC5 = ''00C5''" "format_04X 0x2460 = ''2460''"
    "format_04X 0xC0 = ''00C0''" "format_04X 0x41 = ''0041''" "format_04X 0x300 = ''0300''"
    "format_04X 0x30A = ''030A''"
    by (simp_all add: format_04X_def to_hex.simps upper_hex_digit_def replicate_numeral_eq)
  have run: "dm_map_rs CodePointRange_parse ?int16 ?d = Inr ?out"
    unfolding dm_map_rs_def dm_part rdm
    by (simp add: fmt dm_map_header_def rdm_map_header_def dm_line_def rdm_line_def
          str_as_escaped_def newline_def dquote_def backslash_def)
  have keys: "distinct (map fst ?d)" by simp
  have dm: "dict_get [(''na'', ''CIRCLED DIGIT ONE''), (''dm'', ''<circle> 0031'')] ''dm''
              = Inr (''<'' @ ''circle'' @ ''> '' @ ''0031'')"
    by (simp add: dict_get_def)
  have absent: "''2460'' \<notin> snd ` set [([0x41, 0x300 :: nat], ''00C0''), ([0x41, 0x30A], ''00C5'')]"
    by simp
  have "\<exists>cp pre post rdm.
          CodePointRange_parse ''2460'' = Inr cp \<and>
          dm_map_loop CodePointRange_parse [(''00C5'', [(''dm'', ''0041 030A'')])] [] = Inr pre \<and>
          dm_map_loop CodePointRange_parse [(''0041'', [(''dm'', [])]), (''00C0'', [(''dm'', ''0041 0300'')])] [] = Inr post \<and>
          rdm_list_sorted ?int16 ([(''00C5'', [(''dm'', ''0041 030A'')])] @ (''2460'', [(''na'', ''CIRCLED DIGIT ONE''), (''dm'', ''<circle> 0031'')]) # [(''0041'', [(''dm'', [])]), (''00C0'', [(''dm'', ''0041 0300'')])]) = Inr rdm \<and>
          ?out = dm_map_header @ pre @
                 ''    (0x'' @ format_04X (start cp) @ '', '' @ dquote @
                 concat (map (\<lambda>code. backslash @ ''u{'' @ code @ ''}'')
                           (split_on (CHR '' '') ''0031'')) @
                 dquote @ ''),'' @ newline @
                 post @ ''];'' @ newline @ newline @
                 rdm_map_header @ concat (map rdm_line rdm) @ ''];'' @ newline \<and>
          ''2460'' \<notin> snd ` set rdm"
  proof (rule dm_map_not_round_trip)
    show "dm_map_rs CodePointRange_parse ?int16
            ([(''00C5'', [(''dm'', ''0041 030A'')])] @ (''2460'', [(''na'', ''CIRCLED DIGIT ONE''), (''dm'', ''<circle> 0031'')]) # [(''0041'', [(''dm'', [])]), (''00C0'', [(''dm'', ''0041 0300'')])]) = Inr ?out"
      using run by simp
    show "distinct (map fst ([(''00C5'', [(''dm'', ''0041 030A'')])] @ (''2460'', [(''na'', ''CIRCLED DIGIT ONE''), (''dm'', ''<circle> 0031'')]) # [(''0041'', [(''dm'', [])]), (''00C0'', [(''dm'', ''0041 0300'')])]))"
      by simp
    show "dict_get [(''na'', ''CIRCLED DIGIT ONE''), (''dm'', ''<circle> 0031'')] ''dm'' = Inr (''<'' @ ''circle'' @ ''> '' @ ''0031'')"
      by (rule dm)
    show "''circle'' \<noteq> []" by simp
    show "CHR 0x0A \<notin> set ''circle''" by simp
    show "CHR ''>'' \<notin> set ''0031''" by simp
  qed
  then have used: "\<exists>cp. CodePointRange_parse ''2460'' = Inr cp" by blast
  from used run keys dm rdm absent show ?thesis by blast
qed

subsection \<open>The routines of the emoji properties\<close>

lemma enumerate_flags_later:
  "map (\<lambda>(i, tst). i = 0) (List.enumerate (Suc n) tsts) = replicate (length tsts) False"
  by (induction tsts arbitrary: n) auto

lemma enumerate_flags:
  "map (\<lambda>(i, tst). i = 0) (List.enumerate 0 tsts) =
     (case tsts of [] \<Rightarrow> [] | t # rest \<Rightarrow> True # replicate (length rest) False)"
  by (cases tsts) (auto simp: enumerate_flags_later)

lemma emoji_props_loop_eq:
  "emoji_props_loop lower property_aliases make table_bytes to_seshat emoji_data_dict
     (List.enumerate n ps) out = Inr res \<Longrightarrow>
   \<exists>tsts. length tsts = length ps \<and>
     res = out @ concat (map (\<lambda>(i, tst). to_seshat tst (i = 0) True True)
                          (List.enumerate n tsts)) \<and>
     (\<forall>j < length ps. \<exists>prop_alias data.
        to_snake_case lower (find_key_by_value property_aliases (ps ! j)) = Inr prop_alias \<and>
        dict_get emoji_data_dict (ps ! j) = Inr data \<and>
        select_minimal_tst make table_bytes prop_alias data 1 (Some ''false'') None
          = Inr (tsts ! j))"
proof (induction ps arbitrary: n out)
  case Nil
  then show ?case by simp
next
  case (Cons p ps)
  let ?loop = "emoji_props_loop lower property_aliases make table_bytes to_seshat
                 emoji_data_dict"
  from Cons.prems obtain prop_alias where
    al: "to_snake_case lower (find_key_by_value property_aliases p) = Inr prop_alias"
    by (cases "to_snake_case lower (find_key_by_value property_aliases p)") auto
  from Cons.prems al obtain data where da: "dict_get emoji_data_dict p = Inr data"
    by (cases "dict_get emoji_data_dict p") auto
  from Cons.prems al da obtain tst where
    ts: "select_minimal_tst make table_bytes prop_alias data 1 (Some ''false'') None = Inr tst"
    by (cases "select_minimal_tst make table_bytes prop_alias data 1 (Some ''false'') None")
      auto
  have flag: "(if n = 0 then True else False) = (n = 0)" by simp
  from Cons.prems al da ts
  have run: "?loop (List.enumerate (Suc n) ps) (out @ to_seshat tst (n = 0) True True) = Inr res"
    by (simp add: flag)
  from Cons.IH [OF run] obtain tsts where
    t: "length tsts = length ps"
       "res = (out @ to_seshat tst (n = 0) True True) @
              concat (map (\<lambda>(i, tst). to_seshat tst (i = 0) True True)
                        (List.enumerate (Suc n) tsts))"
       "\<forall>j < length ps. \<exists>prop_alias data.
          to_snake_case lower (find_key_by_value property_aliases (ps ! j)) = Inr prop_alias \<and>
          dict_get emoji_data_dict (ps ! j) = Inr data \<and>
          select_minimal_tst make table_bytes prop_alias data 1 (Some ''false'') None
            = Inr (tsts ! j)"
    by blast
  have len: "length (tst # tsts) = length (p # ps)" using t(1) by simp
  have res: "res = out @ concat (map (\<lambda>(i, tst). to_seshat tst (i = 0) True True)
                                   (List.enumerate n (tst # tsts)))"
    using t(2) by simp
  have all: "\<forall>j < length (p # ps). \<exists>prop_alias data.
          to_snake_case lower (find_key_by_value property_aliases ((p # ps) ! j))
            = Inr prop_alias \<and>
          dict_get emoji_data_dict ((p # ps) ! j) = Inr data \<and>
          select_minimal_tst make table_bytes prop_alias data 1 (Some ''false'') None
            = Inr ((tst # tsts) ! j)"
  proof (intro allI impI)
    fix j assume j: "j < length (p # ps)"
    show "\<exists>prop_alias data.
          to_snake_case lower (find_key_by_value property_aliases ((p # ps) ! j))
            = Inr prop_alias \<and>
          dict_get emoji_data_dict ((p # ps) ! j) = Inr data \<and>
          select_minimal_tst make table_bytes prop_alias data 1 (Some ''false'') None
            = Inr ((tst # tsts) ! j)"
    proof (cases j)
      case 0
      with al da ts show ?thesis by simp
    next
      case (Suc j')
      with j have "j' < length ps" by simp
      with t(3) Suc show ?thesis by simp
    qed
  qed
  from len res all show ?case by blast
qed

text \<open>
  Claim C8. In the loop over the emoji properties the routine written for the
  property at index \<open>i\<close> gets \<open>use = True\<close> exactly when \<open>i = 0\<close>: the text written
  is the concatenation of \<open>to_seshat(use=(i == 0), prefix=True, boolean=True)\<close> over
  the tables selected for the properties, in order. The flags are \<open>True\<close> for the first
  routine and \<open>False\<close> for all later ones, so a group with at least one property has
  exactly one primary routine, the first.
\<close>

theorem emoji_first_routine_primary:
  assumes "emoji_props lower property_aliases make table_bytes to_seshat emoji_data_dict
             = Inr out"
  shows "\<exists>tsts. length tsts = length emoji_data_dict \<and>
           out = concat (map (\<lambda>(i, tst). to_seshat tst (i = 0) True True)
                           (List.enumerate 0 tsts)) \<and>
           map (\<lambda>(i, tst). i = 0) (List.enumerate 0 tsts) =
             (case tsts of [] \<Rightarrow> [] | t # rest \<Rightarrow> True # replicate (length rest) False) \<and>
           (\<forall>j < length emoji_data_dict. \<exists>prop_alias data.
              to_snake_case lower
                (find_key_by_value property_aliases (fst (emoji_data_dict ! j)))
                = Inr prop_alias \<and>
              dict_get emoji_data_dict (fst (emoji_data_dict ! j)) = Inr data \<and>
              select_minimal_tst make table_bytes prop_alias data 1 (Some ''false'') None
                = Inr (tsts ! j))"
proof -
  from assms have "emoji_props_loop lower property_aliases make table_bytes to_seshat
      emoji_data_dict (List.enumerate 0 (map fst emoji_data_dict)) [] = Inr out"
    by (simp add: emoji_props_def)
  from emoji_props_loop_eq [OF this] obtain tsts where
    t: "length tsts = length (map fst emoji_data_dict)"
       "out = [] @ concat (map (\<lambda>(i, tst). to_seshat tst (i = 0) True True)
                            (List.enumerate 0 tsts))"
       "\<forall>j < length (map fst emoji_data_dict). \<exists>prop_alias data.
          to_snake_case lower
            (find_key_by_value property_aliases (map fst emoji_data_dict ! j))
            = Inr prop_alias \<and>
          dict_get emoji_data_dict (map fst emoji_data_dict ! j) = Inr data \<and>
          select_minimal_tst make table_bytes prop_alias data 1 (Some ''false'') None
            = Inr (tsts ! j)"
    by blast
  have "\<forall>j < length emoji_data_dict. \<exists>prop_alias data.
              to_snake_case lower
                (find_key_by_value property_aliases (fst (emoji_data_dict ! j)))
                = Inr prop_alias \<and>
              dict_get emoji_data_dict (fst (emoji_data_dict ! j)) = Inr data \<and>
              select_minimal_tst make table_bytes prop_alias data 1 (Some ''false'') None
                = Inr (tsts ! j)"
    using t(3) by simp
  with t(1,2) enumerate_flags [of tsts] show ?thesis by auto
qed

theorem emoji_first_routine_primary_witness:
  "emoji_props
     (map (\<lambda>c. case map_of
           [(CHR ''A'', CHR ''a''), (CHR ''B'', CHR ''b''), (CHR ''C'', CHR ''c''),
            (CHR ''D'', CHR ''d''), (CHR ''E'', CHR ''e''), (CHR ''F'', CHR ''f''),
            (CHR ''G'', CHR ''g''), (CHR ''H'', CHR ''h''), (CHR ''I'', CHR ''i''),
            (CHR ''J'', CHR ''j''), (CHR ''K'', CHR ''k''), (CHR ''L'', CHR ''l''),
            (CHR ''M'', CHR ''m''), (CHR ''N'', CHR ''n''), (CHR ''O'', CHR ''o''),
            (CHR ''P'', CHR ''p''), (CHR ''Q'', CHR ''q''), (CHR ''R'', CHR ''r''),
            (CHR ''S'', CHR ''s''), (CHR ''T'', CHR ''t''), (CHR ''U'', CHR ''u''),
            (CHR ''V'', CHR ''v''), (CHR ''W'', CHR ''w''), (CHR ''X'', CHR ''x''),
            (CHR ''Y'', CHR ''y''), (CHR ''Z'', CHR ''z'')] c of
             None \<Rightarrow> c | Some l \<Rightarrow> l))
     [(''Emoji'', ''Emoji''), (''EPres'', ''Emoji_Presentation''), (''ExtPict'', ''Extended_Pictographic'')]
     ((\<lambda>p d b dp m. Inr (p, b)) :: string \<Rightarrow> (CodePointRange \<times> string) list \<Rightarrow> nat \<Rightarrow> string option \<Rightarrow> unit option \<Rightarrow> error + string \<times> nat)
     (\<lambda>t r. int (snd t) * r)
     (\<lambda>t use prefix boolean. (if use then ''pub use '' else ''pub(crate) '') @ fst t @ ''; '')
     [(''Emoji'', [(CodePointRange 0x23 0x23, ''true'')]), (''Extended_Pictographic'', [(CodePointRange 0xA9 0xA9, ''true'')])]
     = Inr ''pub use emoji; pub(crate) ext_pict; ''"
  using emoji_first_routine_primary
    [of "(map (\<lambda>c. case map_of
           [(CHR ''A'', CHR ''a''), (CHR ''B'', CHR ''b''), (CHR ''C'', CHR ''c''),
            (CHR ''D'', CHR ''d''), (CHR ''E'', CHR ''e''), (CHR ''F'', CHR ''f''),
            (CHR ''G'', CHR ''g''), (CHR ''H'', CHR ''h''), (CHR ''I'', CHR ''i''),
            (CHR ''J'', CHR ''j''), (CHR ''K'', CHR ''k''), (CHR ''L'', CHR ''l''),
            (CHR ''M'', CHR ''m''), (CHR ''N'', CHR ''n''), (CHR ''O'', CHR ''o''),
            (CHR ''P'', CHR ''p''), (CHR ''Q'', CHR ''q''), (CHR ''R'', CHR ''r''),
            (CHR ''S'', CHR ''s''), (CHR ''T'', CHR ''t''), (CHR ''U'', CHR ''u''),
            (CHR ''V'', CHR ''v''), (CHR ''W'', CHR ''w''), (CHR ''X'', CHR ''x''),
            (CHR ''Y'', CHR ''y''), (CHR ''Z'', CHR ''z'')] c of
             None \<Rightarrow> c | Some l \<Rightarrow> l))"
        "[(''Emoji'', ''Emoji''), (''EPres'', ''Emoji_Presentation''), (''ExtPict'', ''Extended_Pictographic'')]"
        "(\<lambda>p d b dp m. Inr (p, b)) :: string \<Rightarrow> (CodePointRange \<times> string) list \<Rightarrow> nat \<Rightarrow> string option \<Rightarrow> unit option \<Rightarrow> error + string \<times> nat"
        "(\<lambda>t r. int (snd t) * r)"
        "(\<lambda>t use prefix boolean. (if use then ''pub use '' else ''pub(crate) '') @ fst t @ ''; '')"
        "[(''Emoji'', [(CodePointRange 0x23 0x23, ''true'')]), (''Extended_Pictographic'', [(CodePointRange 0xA9 0xA9, ''true'')])]"
        "''pub use emoji; pub(crate) ext_pict; ''"]
  by (simp add: emoji_props_def to_snake_case_def dict_get_def select_minimal_tst_def
        candidate_block_sizes_def)

subsection \<open>The table builder\<close>















text \<open>
  The scenarios of the specification: the domain \<open>0 .. 15\<close>, block size 4, the mapping
  \<open>[0,2] \<rightarrow> A\<close>, \<open>[5,5] \<rightarrow> B\<close> and the default \<open>Z\<close>, without and with the patch
  \<open>[1,1] \<rightarrow> C\<close>.
\<close>

lemma build_domain_scenario:
  "build_domain 16 [(CodePointRange 0 2, ''A''), (CodePointRange 5 5, ''B'')] 4 ''Z'' None
     = Inr (TwoStageTable [0, 1, 2, 2]
              [[''A'', ''A'', ''A'', ''Z''], [''Z'', ''B'', ''Z'', ''Z''],
               [''Z'', ''Z'', ''Z'', ''Z'']] 4 ''Z'')"
  by (simp add: build_domain_def patch_ranges_def check_ranges_def block_content_def
        intersects_block_def fill_range_def cp_in_def upt_conv_Cons replicate_numeral_eq)

lemma build_domain_scenario_patch:
  "build_domain 16 [(CodePointRange 0 2, ''A''), (CodePointRange 5 5, ''B'')] 4 ''Z''
       (Some [(CodePointRange 1 1, ''C'')])
     = Inr (TwoStageTable [0, 1, 2, 2]
              [[''A'', ''C'', ''A'', ''Z''], [''Z'', ''B'', ''Z'', ''Z''],
               [''Z'', ''Z'', ''Z'', ''Z'']] 4 ''Z'')"
  by (simp add: build_domain_def patch_ranges_def check_ranges_def block_content_def
        intersects_block_def fill_range_def cp_in_def upt_conv_Cons replicate_numeral_eq)

lemma lookup_scenario:
  "lookup (TwoStageTable [0, 1, 2, 2]
              [[''A'', ''A'', ''A'', ''Z''], [''Z'', ''B'', ''Z'', ''Z''],
               [''Z'', ''Z'', ''Z'', ''Z'']] 4 ''Z'') 5 = Some ''B'' \<and>
   lookup (TwoStageTable [0, 1, 2, 2]
              [[''A'', ''A'', ''A'', ''Z''], [''Z'', ''B'', ''Z'', ''Z''],
               [''Z'', ''Z'', ''Z'', ''Z'']] 4 ''Z'') 12 = Some ''Z'' \<and>
   lookup (TwoStageTable [0, 1, 2, 2]
              [[''A'', ''C'', ''A'', ''Z''], [''Z'', ''B'', ''Z'', ''Z''],
               [''Z'', ''Z'', ''Z'', ''Z'']] 4 ''Z'') 1 = Some ''C''"
  by (simp add: lookup_def)




end
